theory Spec2Isabelle
  imports Main "HOL-Library.Sublist"
begin

section \<open>Library functions the program calls\<close>

text \<open>
  Go's \<^verbatim>\<open>int\<close> is taken to be 64 bits wide (the usual build target). Values are
  modelled as \<^typ>\<open>int\<close> and every arithmetic result is wrapped into the signed
  64-bit range by \<open>int64\<close>.
\<close>

definition minInt64 :: int where
  "minInt64 = - 9223372036854775808"

definition maxInt64 :: int where
  "maxInt64 = 9223372036854775807"

definition int64 :: "int \<Rightarrow> int" where
  "int64 x = (x + 9223372036854775808) mod 18446744073709551616 - 9223372036854775808"

definition inInt64 :: "int \<Rightarrow> bool" where
  "inInt64 x = (minInt64 \<le> x \<and> x \<le> maxInt64)"

subsection \<open>strconv.Itoa and strconv.Atoi\<close>

definition digitChar :: "nat \<Rightarrow> char" where
  "digitChar d = ''0123456789'' ! (d mod 10)"

text \<open>The position of a character in a list, if it occurs.\<close>

fun indexOf :: "'a list \<Rightarrow> 'a \<Rightarrow> nat option" where
  "indexOf [] c = None"
| "indexOf (x # xs) c = (if x = c then Some 0 else map_option Suc (indexOf xs c))"

definition digitVal :: "char \<Rightarrow> nat option" where
  "digitVal c = indexOf ''0123456789'' c"

fun formatNat :: "nat \<Rightarrow> string" where
  "formatNat n = (if n < 10 then [digitChar n] else formatNat (n div 10) @ [digitChar n])"

declare formatNat.simps [simp del]

text \<open>\<^verbatim>\<open>strconv.Itoa(i)\<close>: the decimal numeral of \<open>i\<close>, with a minus sign when negative.\<close>

definition Itoa :: "int \<Rightarrow> string" where
  "Itoa i = (if i < 0 then CHR ''-'' # formatNat (nat (- i)) else formatNat (nat i))"

text \<open>
  The digits of a numeral, read left to right; \<open>None\<close> at the first character that is
  not a decimal digit.
\<close>

fun parseDigits :: "nat \<Rightarrow> string \<Rightarrow> nat option" where
  "parseDigits acc [] = Some acc"
| "parseDigits acc (c # cs) =
     (case digitVal c of None \<Rightarrow> None | Some d \<Rightarrow> parseDigits (10 * acc + d) cs)"

text \<open>
  \<^verbatim>\<open>strconv.Atoi(s)\<close>: an optional sign, then at least one decimal digit and nothing
  else; a value outside the 64-bit range is an error as well. \<open>None\<close> stands for the
  returned error.
\<close>

definition Atoi :: "string \<Rightarrow> int option" where
  "Atoi s =
     (let neg = (s \<noteq> [] \<and> hd s = CHR ''-'');
          ds = (if s \<noteq> [] \<and> (hd s = CHR ''-'' \<or> hd s = CHR ''+'') then tl s else s)
      in if ds = [] then None
         else case parseDigits 0 ds of
                None \<Rightarrow> None
              | Some v \<Rightarrow>
                  (let n = (if neg then - int v else int v)
                   in if inInt64 n then Some n else None))"

subsection \<open>strings.Contains and strings.HasPrefix\<close>

fun Contains :: "string \<Rightarrow> string \<Rightarrow> bool" where
  "Contains [] substr = (substr = [])"
| "Contains (c # cs) substr = (prefix substr (c # cs) \<or> Contains cs substr)"

definition HasPrefix :: "string \<Rightarrow> string \<Rightarrow> bool" where
  "HasPrefix s pre = prefix pre s"

section \<open>Data model\<close>

text \<open>
  The record types of the package are declared in a file that is not among the sources;
  they are reconstructed here from the fields the functions read, from the literal
  values the mock builds and from the field projection in the request URLs
  (\<^verbatim>\<open>culprits[fullName]\<close>, \<^verbatim>\<open>actions[causes[userId,upstreamBuild,upstreamProject,shortDescription]]\<close>,
  \<^verbatim>\<open>changeSets[items[author[fullName]]]\<close>, \<^verbatim>\<open>suites[cases[className,name,status,errorStackTrace]]\<close>).
\<close>

record Culprit =
  FullName :: string

record Cause =
  UserID :: string
  UpstreamBuild :: int
  UpstreamProject :: string
  ShortDescription :: string

record Action =
  Causes :: "Cause list"

record Author =
  AuthorFullName :: string

record ChangeSetItem =
  Author :: Author

record ChangeSet =
  Items :: "ChangeSetItem list"

record JobStatus =
  Id :: string
  Result :: string
  Building :: bool
  Timestamp :: int
  EstimatedDuration :: int
  Culprits :: "Culprit list"
  Actions :: "Action list"
  ChangeSets :: "ChangeSet list"

record TestCase =
  ClassName :: string
  Name :: string
  Status :: string
  ErrorStackTrace :: string

record TestSuite =
  Cases :: "TestCase list"

record TestCaseResult =
  Suites :: "TestSuite list"

subsection \<open>Errors, panics and the remote server\<close>

text \<open>
  The error values the functions return. \<open>errStatusPageNotFound\<close> is the package
  variable of that name; the code compares against it by identity, and no error made
  elsewhere is equal to it.
\<close>

datatype error =
    errStatusPageNotFound
  | HttpError string
  | JsonError string
  | NoTestReportFound
  | CouldNotFetchLogSize int
  | SizeNotReceived
  | AtoiError string
  | NotAbleToFetchConsoleOutput int
  | ReadError string

text \<open>
  A run of a function either returns, or panics, or (for the recursive resolution of
  upstream builds) needs a deeper recursion than the fuel it was given.
\<close>

datatype panic = NilPointerDereference | IndexOutOfRange

datatype 'a run = OutOfFuel | Panic panic | Returns 'a

text \<open>
  \<^verbatim>\<open>json.NewDecoder(resp.Body).Decode(&target)\<close> either succeeds or fails; in both cases
  it leaves a value in the target. For the target of \<^verbatim>\<open>GetStatusForJob\<close>, a pointer
  to a \<^verbatim>\<open>JobStatus\<close>, the value is \<open>None\<close> (a nil pointer) when the body is the JSON
  literal \<^verbatim>\<open>null\<close>.
\<close>

datatype 'a decode = Decoded 'a | DecodeFailed string 'a

text \<open>
  An HTTP exchange fails to connect or yields a status code and a body. The server is
  a function of the number of requests made before and of the requested URL, so that
  its answers may change over time.
\<close>

datatype 'b http_result = ConnError string | Response int 'b

type_synonym 'b server = "nat \<Rightarrow> string \<Rightarrow> 'b http_result"

type_synonym status_server = "JobStatus option decode server"

type_synonym report_server = "TestCaseResult decode server"

text \<open>The answer to a HEAD request carries the value of the \<^verbatim>\<open>X-Text-Size\<close> header
  (empty when the header is absent).\<close>

type_synonym head_server = "string server"

text \<open>\<^verbatim>\<open>ioutil.ReadAll(resp.Body)\<close> gives the bytes of the body or fails.\<close>

datatype read_result = ReadFailed string | ReadAll string

type_synonym text_server = "read_result server"

datatype http_request = HttpGet string | HttpHead string

datatype log_entry =
    RejectingStatusForJob string
  | UsingFromCache string
  | Visiting string
  | CouldNotParseNumber string
  | MaximumVisitsReached
  | CouldNotFetchCauses error
  | GotActionsAndCulprits "Action list" "Culprit list" string string
  | CouldNotCatchCauses error

text \<open>
  The \<^verbatim>\<open>ServerAPI\<close> struct. The cache is a Go map of pointers: \<open>None\<close> is the nil map
  of a freshly made value, and a cached pointer may itself be nil.
\<close>

record ServerAPI =
  ServerLocation :: string
  Username :: string
  Password :: string
  cachedStatuses :: "(string \<rightharpoonup> JobStatus option) option"

text \<open>
  The state the functions act on: the API value, the HTTP requests issued so far and
  the lines written to the log, both oldest first.
\<close>

record world = ServerAPI +
  requests :: "http_request list"
  logged :: "log_entry list"

definition newServerAPI :: "string \<Rightarrow> world" where
  "newServerAPI location =
     \<lparr>ServerLocation = location, Username = [], Password = [], cachedStatuses = None,
      requests = [], logged = []\<rparr>"

definition lastCompletedBuild :: string where
  "lastCompletedBuild = ''lastCompletedBuild''"

definition lastBuild :: string where
  "lastBuild = ''lastBuild''"

definition sizeOfSuffix :: int where
  "sizeOfSuffix = 2048"

definition log_Println :: "log_entry \<Rightarrow> world \<Rightarrow> world" where
  "log_Println e w = w\<lparr>logged := logged w @ [e]\<rparr>"

text \<open>An HTTP request: the request is recorded and the server's answer returned.\<close>

definition http_Get :: "'b server \<Rightarrow> world \<Rightarrow> string \<Rightarrow> 'b http_result \<times> world" where
  "http_Get srv w link =
     (srv (length (requests w)) link, w\<lparr>requests := requests w @ [HttpGet link]\<rparr>)"

definition http_Head :: "'b server \<Rightarrow> world \<Rightarrow> string \<Rightarrow> 'b http_result \<times> world" where
  "http_Head srv w link =
     (srv (length (requests w)) link, w\<lparr>requests := requests w @ [HttpHead link]\<rparr>)"

section \<open>The status resolver\<close>

text \<open>The field projection that every status request carries.\<close>

definition statusQuery :: string where
  "statusQuery =
     ''/api/json?tree=id,result,timestamp,estimatedDuration,building,culprits[fullName],actions[causes[userId,upstreamBuild,upstreamProject,shortDescription]],changeSets[items[author[fullName]]]''"

definition statusLink :: "string \<Rightarrow> string \<Rightarrow> string \<Rightarrow> string" where
  "statusLink location job jobID =
     location @ ''/job/'' @ job @ ''/'' @ jobID @ statusQuery"

definition cacheKey :: "string \<Rightarrow> string \<Rightarrow> string" where
  "cacheKey job jobID = job @ ''-'' @ jobID"

text \<open>
  The lookup \<^verbatim>\<open>api.cachedStatuses[key]\<close>: \<open>None\<close> when the key is absent (also in a
  nil map), otherwise the stored pointer.
\<close>

definition cacheLookup :: "world \<Rightarrow> string \<Rightarrow> JobStatus option option" where
  "cacheLookup w key = (case cachedStatuses w of None \<Rightarrow> None | Some m \<Rightarrow> m key)"

text \<open>
  \<^verbatim>\<open>GetStatusForJob\<close>. The returned pair is the Go result (\<open>Inl\<close> an error, \<open>Inr\<close> the
  status pointer with a nil error) and the state afterwards.
\<close>

definition GetStatusForJob ::
  "status_server \<Rightarrow> world \<Rightarrow> string \<Rightarrow> string \<Rightarrow> (error + JobStatus option) \<times> world" where
  "GetStatusForJob srv w job jobID =
     (let possibleCacheKey = cacheKey job jobID in
      if Contains job ''/'' then
        (Inl errStatusPageNotFound, log_Println (RejectingStatusForJob job) w)
      else
        let numbered = (jobID \<noteq> lastBuild \<and> jobID \<noteq> lastCompletedBuild);
            w1 = (if numbered \<and> cachedStatuses w = None
                  then w\<lparr>cachedStatuses := Some Map.empty\<rparr> else w);
            hit = (if numbered then cacheLookup w1 possibleCacheKey else None)
        in case hit of
             Some cachedValue \<Rightarrow>
               (Inr cachedValue, log_Println (UsingFromCache possibleCacheKey) w1)
           | None \<Rightarrow>
               (let link = statusLink (ServerLocation w1) job jobID in
                case http_Get srv (log_Println (Visiting link) w1) link of
                  (ConnError e, w2) \<Rightarrow> (Inl (HttpError e), w2)
                | (Response code body, w2) \<Rightarrow>
                    if code = 404 then (Inl errStatusPageNotFound, w2)
                    else (case body of
                            Decoded result \<Rightarrow>
                              if numbered
                              then (Inr result,
                                    w2\<lparr>cachedStatuses :=
                                         map_option (\<lambda>m. m(possibleCacheKey \<mapsto> result))
                                           (cachedStatuses w2)\<rparr>)
                              else (Inr result, w2)
                          | DecodeFailed msg result \<Rightarrow> (Inr result, w2))))"

definition GetCurrentStatus ::
  "status_server \<Rightarrow> world \<Rightarrow> string \<Rightarrow> (error + JobStatus option) \<times> world" where
  "GetCurrentStatus srv w job = GetStatusForJob srv w job lastBuild"

section \<open>The walker over the build history\<close>

text \<open>
  The Go map \<^verbatim>\<open>map[string]bool\<close> only ever receives the value \<^verbatim>\<open>true\<close>; it is
  modelled as the set of its keys. \<^verbatim>\<open>mapKeysToSlice\<close> (declared outside the given
  sources) lists the keys in the unspecified iteration order of the map, so the result
  of the walk is modelled as that set.
\<close>

fun addCulpritIdsToSet :: "string set \<Rightarrow> Culprit list \<Rightarrow> string set" where
  "addCulpritIdsToSet nameSet [] = nameSet"
| "addCulpritIdsToSet nameSet (culprit # culprits) =
     addCulpritIdsToSet (insert (FullName culprit) nameSet) culprits"

fun addItemsToSet :: "string set \<Rightarrow> ChangeSetItem list \<Rightarrow> string set" where
  "addItemsToSet nameSet [] = nameSet"
| "addItemsToSet nameSet (changeSetItem # items) =
     addItemsToSet (insert (AuthorFullName (Author changeSetItem)) nameSet) items"

fun addChangeSetsToSet :: "string set \<Rightarrow> ChangeSet list \<Rightarrow> string set" where
  "addChangeSetsToSet nameSet [] = nameSet"
| "addChangeSetsToSet nameSet (changeSet # changeSets) =
     addChangeSetsToSet (addItemsToSet nameSet (Items changeSet)) changeSets"

text \<open>
  \<^verbatim>\<open>addActionIdsToSet\<close> and \<^verbatim>\<open>addCauses\<close> call each other. The two loops of
  \<^verbatim>\<open>addActionIdsToSet\<close> are written first, with the function they call for an
  upstream cause as a parameter; \<open>addCauses\<close> then ties the knot by recursion on the
  fuel, which bounds the depth of the nesting of \<^verbatim>\<open>addCauses\<close> calls.
\<close>

type_synonym resolver =
  "world \<Rightarrow> string set \<Rightarrow> string \<Rightarrow> int \<Rightarrow> (world \<times> string set \<times> error option) run"

fun forCauses ::
  "resolver \<Rightarrow> JobStatus \<Rightarrow> Cause list \<Rightarrow> world \<Rightarrow> string set \<Rightarrow> (world \<times> string set) run" where
  "forCauses addCauses status [] w nameSet = Returns (w, nameSet)"
| "forCauses addCauses status (cause # causes) w nameSet =
     (if UserID cause \<noteq> '''' then
        forCauses addCauses status causes w (insert (UserID cause) nameSet)
      else if UpstreamBuild cause \<noteq> 0 \<and> UpstreamProject cause \<noteq> '''' then
        (case addCauses w nameSet (UpstreamProject cause) (UpstreamBuild cause) of
           Returns (w', nameSet', err) \<Rightarrow>
             forCauses addCauses status causes
               (case err of None \<Rightarrow> w' | Some e \<Rightarrow> log_Println (CouldNotCatchCauses e) w')
               nameSet'
         | Panic p \<Rightarrow> Panic p
         | OutOfFuel \<Rightarrow> OutOfFuel)
      else if ShortDescription cause = ''Started by an SCM change'' then
        forCauses addCauses status causes w (addCulpritIdsToSet nameSet (Culprits status))
      else if HasPrefix (ShortDescription cause) ''commit notification'' then
        forCauses addCauses status causes w (addChangeSetsToSet nameSet (ChangeSets status))
      else forCauses addCauses status causes w nameSet)"

fun forActions ::
  "resolver \<Rightarrow> JobStatus \<Rightarrow> Action list \<Rightarrow> world \<Rightarrow> string set \<Rightarrow> (world \<times> string set) run" where
  "forActions addCauses status [] w nameSet = Returns (w, nameSet)"
| "forActions addCauses status (action # actions) w nameSet =
     (case forCauses addCauses status (Causes action) w nameSet of
        Returns (w', nameSet') \<Rightarrow> forActions addCauses status actions w' nameSet'
      | Panic p \<Rightarrow> Panic p
      | OutOfFuel \<Rightarrow> OutOfFuel)"

text \<open>The body of \<^verbatim>\<open>addActionIdsToSet\<close>; reading \<^verbatim>\<open>status.Actions\<close> through a nil
  pointer panics.\<close>

definition walkStatus ::
  "resolver \<Rightarrow> world \<Rightarrow> string set \<Rightarrow> JobStatus option \<Rightarrow> (world \<times> string set) run" where
  "walkStatus addCauses w nameSet status =
     (case status of
        None \<Rightarrow> Panic NilPointerDereference
      | Some st \<Rightarrow> forActions addCauses st (Actions st) w nameSet)"

primrec addCauses :: "nat \<Rightarrow> status_server \<Rightarrow> resolver" where
  "addCauses 0 srv = (\<lambda>w nameSet upstreamProject upstreamBuild. OutOfFuel)"
| "addCauses (Suc fuel) srv = (\<lambda>w nameSet upstreamProject upstreamBuild.
     (case GetStatusForJob srv w upstreamProject (Itoa upstreamBuild) of
        (Inl err, w') \<Rightarrow> Returns (w', nameSet, Some err)
      | (Inr status, w') \<Rightarrow>
          (case walkStatus (addCauses fuel srv) w' nameSet status of
             Returns (w'', nameSet') \<Rightarrow> Returns (w'', nameSet', None)
           | Panic p \<Rightarrow> Panic p
           | OutOfFuel \<Rightarrow> OutOfFuel)))"

definition addActionIdsToSet ::
  "nat \<Rightarrow> status_server \<Rightarrow> world \<Rightarrow> string set \<Rightarrow> JobStatus option \<Rightarrow> (world \<times> string set) run" where
  "addActionIdsToSet fuel srv w nameSet status = walkStatus (addCauses fuel srv) w nameSet status"

text \<open>
  The loop of \<^verbatim>\<open>CausesOfFailures\<close>, with its variables \<^verbatim>\<open>visitsToServerAllowed\<close>,
  \<^verbatim>\<open>id\<close> and \<^verbatim>\<open>set\<close> as arguments. It ends because every iteration that continues
  has lowered the positive counter.
\<close>

function CausesOfFailures_loop ::
  "nat \<Rightarrow> status_server \<Rightarrow> string \<Rightarrow> int \<Rightarrow> string \<Rightarrow> world \<Rightarrow> string set \<Rightarrow>
   (world \<times> string set) run" where
  "CausesOfFailures_loop fuel srv name visitsToServerAllowed jobID w nameSet =
     (if jobID = lastCompletedBuild then Returns (w, nameSet)
      else case Atoi jobID of
        None \<Rightarrow> Returns (log_Println (CouldNotParseNumber jobID) w, nameSet)
      | Some currentID \<Rightarrow>
          if visitsToServerAllowed - 1 \<le> 0
          then Returns (log_Println MaximumVisitsReached w, nameSet)
          else
            (case GetStatusForJob srv w name jobID of
               (Inl err, w') \<Rightarrow>
                 if err = errStatusPageNotFound
                 then CausesOfFailures_loop fuel srv name (visitsToServerAllowed - 1)
                        (Itoa (int64 (currentID - 1))) w' nameSet
                 else Returns (log_Println (CouldNotFetchCauses err) w', nameSet)
             | (Inr None, w') \<Rightarrow> Panic NilPointerDereference
             | (Inr (Some statusIterator), w') \<Rightarrow>
                 if Result statusIterator = ''SUCCESS'' \<or> Result statusIterator = ''FIXED''
                 then Returns (w', nameSet)
                 else
                   (case addActionIdsToSet fuel srv
                           (log_Println (GotActionsAndCulprits (Actions statusIterator)
                              (Culprits statusIterator) name jobID) w')
                           nameSet (Some statusIterator) of
                      Returns (w'', nameSet') \<Rightarrow>
                        CausesOfFailures_loop fuel srv name (visitsToServerAllowed - 1)
                          (Itoa (int64 (currentID - 1))) w''
                          (addChangeSetsToSet
                             (addCulpritIdsToSet nameSet' (Culprits statusIterator))
                             (ChangeSets statusIterator))
                    | Panic p \<Rightarrow> Panic p
                    | OutOfFuel \<Rightarrow> OutOfFuel)))"
  by pat_completeness auto
termination
  by (relation "measure (\<lambda>(fuel, srv, name, visits, jobID, w, nameSet). nat visits)") auto

declare CausesOfFailures_loop.simps [simp del]

definition CausesOfFailures ::
  "nat \<Rightarrow> status_server \<Rightarrow> world \<Rightarrow> string \<Rightarrow> string \<Rightarrow> (world \<times> string set) run" where
  "CausesOfFailures fuel srv w name jobID = CausesOfFailures_loop fuel srv name 20 jobID w {}"

definition CausesOfPreviousFailures ::
  "nat \<Rightarrow> status_server \<Rightarrow> world \<Rightarrow> string \<Rightarrow> (world \<times> string set) run" where
  "CausesOfPreviousFailures fuel srv w name = CausesOfFailures fuel srv w name lastCompletedBuild"

section \<open>The failed-test list\<close>

definition testReportLink :: "string \<Rightarrow> string \<Rightarrow> string \<Rightarrow> string" where
  "testReportLink location job jobID =
     location @ ''/job/'' @ job @ ''/'' @ jobID @
     ''/testReport/api/json?tree=suites[cases[className,name,status,errorStackTrace]]''"

fun forCases :: "TestCase list \<Rightarrow> TestCase list \<Rightarrow> TestCase list" where
  "forCases results [] = results"
| "forCases results (aCase # cases) =
     (if Status aCase \<noteq> ''PASSED'' \<and> Status aCase \<noteq> ''SKIPPED'' \<and> Status aCase \<noteq> ''FIXED''
      then forCases (results @ [aCase]) cases
      else forCases results cases)"

fun forSuites :: "TestCase list \<Rightarrow> TestSuite list \<Rightarrow> TestCase list" where
  "forSuites results [] = results"
| "forSuites results (suite # suites) = forSuites (forCases results (Cases suite)) suites"

definition GetFailedTestListFor ::
  "report_server \<Rightarrow> world \<Rightarrow> string \<Rightarrow> string \<Rightarrow> (error + TestCase list) \<times> world" where
  "GetFailedTestListFor srv w job jobID =
     (let link = testReportLink (ServerLocation w) job jobID in
      case http_Get srv (log_Println (Visiting link) w) link of
        (ConnError e, w') \<Rightarrow> (Inl (HttpError e), w')
      | (Response code body, w') \<Rightarrow>
          if code = 404 then (Inl NoTestReportFound, w')
          else (case body of
                  DecodeFailed msg received \<Rightarrow> (Inl (JsonError msg), w')
                | Decoded received \<Rightarrow> (Inr (forSuites [] (Suites received)), w')))"

definition GetFailedTestList ::
  "report_server \<Rightarrow> world \<Rightarrow> string \<Rightarrow> (error + TestCase list) \<times> world" where
  "GetFailedTestList srv w job = GetFailedTestListFor srv w job ''lastFailedBuild''"

section \<open>The tail of the console log\<close>

text \<open>
  \<^verbatim>\<open>matcherForHTMLAndWeirdCharacters.ReplaceAllString(s, "")\<close> for the expression
  \<^verbatim>\<open>(<[^>]+>)|(\r)\<close>: scanning from the left, a \<^verbatim>\<open><\<close> followed by at least one
  character other than \<^verbatim>\<open>>\<close> and then a \<^verbatim>\<open>>\<close> is removed up to that \<^verbatim>\<open>>\<close>,
  a carriage return is removed, and every other character is kept.
\<close>

function ReplaceAllString :: "string \<Rightarrow> string" where
  "ReplaceAllString [] = []"
| "ReplaceAllString (c # cs) =
     (if c = CHR ''<'' \<and> takeWhile (\<lambda>x. x \<noteq> CHR ''>'') cs \<noteq> []
         \<and> dropWhile (\<lambda>x. x \<noteq> CHR ''>'') cs \<noteq> []
      then ReplaceAllString (tl (dropWhile (\<lambda>x. x \<noteq> CHR ''>'') cs))
      else if c = CHR 0x0D then ReplaceAllString cs
      else c # ReplaceAllString cs)"
  by pat_completeness auto
termination
proof (relation "measure length")
  fix c :: char and cs :: string
  have "length (tl (dropWhile (\<lambda>x. x \<noteq> CHR ''>'') cs)) \<le> length cs"
    using length_dropWhile_le [of "\<lambda>x. x \<noteq> CHR ''>''" cs] by simp
  then show "(tl (dropWhile (\<lambda>x. x \<noteq> CHR ''>'') cs), c # cs) \<in> measure length"
    by simp
qed auto

definition logSizeLink :: "string \<Rightarrow> string \<Rightarrow> string \<Rightarrow> string" where
  "logSizeLink location job jobID =
     location @ ''/job/'' @ job @ ''/'' @ jobID @ ''/logText/progressiveHtml''"

definition fetchSizeForLastLogLines ::
  "head_server \<Rightarrow> world \<Rightarrow> string \<Rightarrow> (error + int) \<times> world" where
  "fetchSizeForLastLogLines srv w linkForSize =
     (case http_Head srv w linkForSize of
        (ConnError e, w') \<Rightarrow> (Inl (HttpError e), w')
      | (Response code textSize, w') \<Rightarrow>
          if code \<noteq> 200 then (Inl (CouldNotFetchLogSize code), w')
          else if textSize = '''' then (Inl SizeNotReceived, w')
          else (case Atoi textSize of
                  None \<Rightarrow> (Inl (AtoiError textSize), w')
                | Some n \<Rightarrow> (Inr n, w')))"

text \<open>
  The backward scan over the bytes. Its variables \<^verbatim>\<open>i\<close>, \<^verbatim>\<open>nl\<close>, \<^verbatim>\<open>endIter\<close> and
  \<^verbatim>\<open>dataAsString\<close> are arguments; an index outside the slice panics.
\<close>

function scanLines ::
  "string \<Rightarrow> int \<Rightarrow> int \<Rightarrow> int \<Rightarrow> int \<Rightarrow> string list \<Rightarrow> string list run" where
  "scanLines data lineCount i nl endIter dataAsString =
     (if i \<ge> 0 \<and> nl < lineCount then
        (if i \<ge> int (length data) then Panic IndexOutOfRange
         else if data ! nat i = CHR 0x0A \<and> i \<noteq> endIter then
           (if i + 1 > endIter \<or> endIter > int (length data) then Panic IndexOutOfRange
            else scanLines data lineCount (i - 1) (nl + 1) i
                   (dataAsString @
                    [ReplaceAllString (take (nat (endIter - (i + 1))) (drop (nat (i + 1)) data))]))
         else scanLines data lineCount (i - 1) nl endIter dataAsString)
      else Returns dataAsString)"
  by pat_completeness auto
termination
  by (relation "measure (\<lambda>(data, lineCount, i, nl, endIter, dataAsString). nat (i + 1))") auto

declare scanLines.simps [simp del]

text \<open>The loop that swaps the entries of the slice end for end.\<close>

function swapLines :: "string list \<Rightarrow> nat \<Rightarrow> string list" where
  "swapLines dataAsString i =
     (if i < length dataAsString div 2
      then swapLines
             (dataAsString
                [i := dataAsString ! (length dataAsString - i - 1),
                 length dataAsString - i - 1 := dataAsString ! i])
             (i + 1)
      else dataAsString)"
  by pat_completeness auto
termination
  by (relation "measure (\<lambda>(dataAsString, i). length dataAsString div 2 - i)") auto

declare swapLines.simps [simp del]

definition fetchLinesForLastLogLines ::
  "text_server \<Rightarrow> world \<Rightarrow> string \<Rightarrow> int \<Rightarrow> (error + string list) run \<times> world" where
  "fetchLinesForLastLogLines srv w link lineCount =
     (case http_Get srv w link of
        (ConnError e, w') \<Rightarrow> (Returns (Inl (HttpError e)), w')
      | (Response code body, w') \<Rightarrow>
          if code \<noteq> 200 then (Returns (Inl (NotAbleToFetchConsoleOutput code)), w')
          else (case body of
                  ReadFailed e \<Rightarrow> (Returns (Inl (ReadError e)), w')
                | ReadAll data \<Rightarrow>
                    (case scanLines data lineCount (int (length data) - 1) 0
                            (int (length data) - 1) [] of
                       Returns dataAsString \<Rightarrow> (Returns (Inr (swapLines dataAsString 0)), w')
                     | Panic p \<Rightarrow> (Panic p, w')
                     | OutOfFuel \<Rightarrow> (OutOfFuel, w'))))"

definition GetLastLogLines ::
  "head_server \<Rightarrow> text_server \<Rightarrow> world \<Rightarrow> string \<Rightarrow> string \<Rightarrow> int \<Rightarrow>
   (error + string list) run \<times> world" where
  "GetLastLogLines headSrv textSrv w job jobID lineCount =
     (let linkForSize = logSizeLink (ServerLocation w) job jobID in
      case fetchSizeForLastLogLines headSrv w linkForSize of
        (Inl err, w') \<Rightarrow> (Returns (Inl err), w')
      | (Inr logSize, w') \<Rightarrow>
          fetchLinesForLastLogLines textSrv w'
            (linkForSize @ ''?start='' @ Itoa (int64 (logSize - sizeOfSuffix))) lineCount)"

section \<open>Notions used in the statements\<close>

text \<open>The state in which the request of a cache miss is made.\<close>

definition beforeFetch :: "world \<Rightarrow> string \<Rightarrow> world" where
  "beforeFetch w jobID =
     (if jobID \<noteq> lastBuild \<and> jobID \<noteq> lastCompletedBuild \<and> cachedStatuses w = None
      then w\<lparr>cachedStatuses := Some Map.empty\<rparr> else w)"

text \<open>The zero value \<^verbatim>\<open>&JobStatus{}\<close> and a server that gives one answer to every request.\<close>

definition emptyStatus :: JobStatus where
  "emptyStatus =
     \<lparr>Id = [], Result = [], Building = False, Timestamp = 0, EstimatedDuration = 0,
      Culprits = [], Actions = [], ChangeSets = []\<rparr>"

definition always :: "'b http_result \<Rightarrow> 'b server" where
  "always answer = (\<lambda>t link. answer)"

text \<open>A test case that the filter of \<^verbatim>\<open>GetFailedTestListFor\<close> keeps.\<close>

definition isFailure :: "TestCase \<Rightarrow> bool" where
  "isFailure aCase =
     (Status aCase \<noteq> ''PASSED'' \<and> Status aCase \<noteq> ''SKIPPED'' \<and> Status aCase \<noteq> ''FIXED'')"

text \<open>Sample data: a test report of two suites, and a console log of four lines.\<close>

definition testCase :: "string \<Rightarrow> string \<Rightarrow> TestCase" where
  "testCase name status = \<lparr>ClassName = ''suite.Class'', Name = name, Status = status, ErrorStackTrace = []\<rparr>"

definition sampleReport :: TestCaseResult where
  "sampleReport =
     \<lparr>Suites =
        [\<lparr>Cases = [testCase ''t1'' ''PASSED'', testCase ''t2'' ''FAILED'', testCase ''t3'' ''SKIPPED'']\<rparr>,
         \<lparr>Cases = [testCase ''t4'' ''REGRESSION'', testCase ''t5'' ''FIXED'']\<rparr>]\<rparr>"

definition sampleLog :: string where
  "sampleLog = [CHR ''a'', CHR 0x0A, CHR ''b'', CHR 0x0A, CHR ''c'', CHR 0x0A, CHR ''d'', CHR 0x0A]"

text \<open>Sample records: a failed build with one culprit, and a successful build.\<close>

definition failedBy :: "string \<Rightarrow> JobStatus" where
  "failedBy culprit = emptyStatus\<lparr>Result := ''FAILURE'', Culprits := [\<lparr>FullName = culprit\<rparr>]\<rparr>"

definition succeeded :: JobStatus where
  "succeeded = emptyStatus\<lparr>Result := ''SUCCESS''\<rparr>"

text \<open>A history in which build 10 is gone, build 9 failed and build 8 succeeded.\<close>

definition gapHistory :: status_server where
  "gapHistory t link =
     (if link = statusLink ''http://jenkins'' ''job'' ''10'' then Response 404 (Decoded None)
      else if link = statusLink ''http://jenkins'' ''job'' ''9''
        then Response 200 (Decoded (Some (failedBy ''carol'')))
      else if link = statusLink ''http://jenkins'' ''job'' ''8''
        then Response 200 (Decoded (Some succeeded))
      else ConnError ''unexpected request'')"

text \<open>
  A cause that \<^verbatim>\<open>addActionIdsToSet\<close> resolves by a call of \<^verbatim>\<open>addCauses\<close>: no user,
  and an upstream build and project.
\<close>

definition isUpstream :: "Cause \<Rightarrow> bool" where
  "isUpstream cause =
     (UserID cause = '''' \<and> UpstreamBuild cause \<noteq> 0 \<and> UpstreamProject cause \<noteq> '''')"

text \<open>
  The builds a record names as its upstream causes, each under the key by which the
  cache knows it.
\<close>

definition upstreamKeys :: "JobStatus \<Rightarrow> string list" where
  "upstreamKeys st =
     concat (map (\<lambda>action.
        map (\<lambda>cause. cacheKey (UpstreamProject cause) (Itoa (UpstreamBuild cause)))
          (filter isUpstream (Causes action))) (Actions st))"

text \<open>
  A ranking of the builds (by cache key) descends along a record stored or served under
  \<open>key\<close> when every upstream build the record names ranks strictly lower than \<open>key\<close>.
\<close>

definition descends :: "(string \<Rightarrow> nat) \<Rightarrow> string \<Rightarrow> JobStatus \<Rightarrow> bool" where
  "descends rank key st = (\<forall>k \<in> set (upstreamKeys st). rank k < rank key)"



definition acyclicCache :: "(string \<Rightarrow> nat) \<Rightarrow> world \<Rightarrow> bool" where
  "acyclicCache rank w =
     (\<forall>key st. cacheLookup w key = Some (Some st) \<longrightarrow> descends rank key st)"

text \<open>
  Sample records: a failed build triggered by an upstream build, and a build started by
  a user.
\<close>

definition triggeredBy :: "string \<Rightarrow> int \<Rightarrow> JobStatus" where
  "triggeredBy project build =
     emptyStatus\<lparr>Result := ''FAILURE'',
       Actions := [\<lparr>Causes = [\<lparr>UserID = [], UpstreamBuild = build, UpstreamProject = project,
                               ShortDescription = ''Started by upstream project''\<rparr>]\<rparr>]\<rparr>"





text \<open>The states the walk over the cyclic history passes through.\<close>

definition cyclicState :: "world \<Rightarrow> bool" where
  "cyclicState w =
     (ServerLocation w = ''http://jenkins''
      \<and> (cacheLookup w (cacheKey ''A'' ''5'') = None
         \<or> cacheLookup w (cacheKey ''A'' ''5'') = Some (Some (triggeredBy ''B'' 3)))
      \<and> (cacheLookup w (cacheKey ''B'' ''3'') = None
         \<or> cacheLookup w (cacheKey ''B'' ''3'') = Some (Some (triggeredBy ''A'' 5))))"

text \<open>How a call of the resolver for build \<open>k\<close> shows in the log and on the network.\<close>

definition resolverEntry :: "world \<Rightarrow> string \<Rightarrow> int \<Rightarrow> log_entry" where
  "resolverEntry w name k =
     (if cacheLookup w (cacheKey name (Itoa k)) = None
      then Visiting (statusLink (ServerLocation w) name (Itoa k))
      else UsingFromCache (cacheKey name (Itoa k)))"

definition resolverRequests :: "world \<Rightarrow> string \<Rightarrow> int \<Rightarrow> http_request list" where
  "resolverRequests w name k =
     (if cacheLookup w (cacheKey name (Itoa k)) = None
      then [HttpGet (statusLink (ServerLocation w) name (Itoa k))]
      else [])"

section \<open>Facts about the library functions\<close>

lemma int64_id: "inInt64 x \<Longrightarrow> int64 x = x"
  by (simp add: int64_def inInt64_def minInt64_def maxInt64_def)

lemma int64_range: "inInt64 (int64 x)"
proof -
  have "0 \<le> (x + 9223372036854775808) mod 18446744073709551616"
    and "(x + 9223372036854775808) mod 18446744073709551616 < 18446744073709551616"
    by simp_all
  then show ?thesis
    by (simp add: int64_def inInt64_def minInt64_def maxInt64_def)
qed

lemma small_cases:
  "(k::nat) < 10 \<Longrightarrow>
     k = 0 \<or> k = 1 \<or> k = 2 \<or> k = 3 \<or> k = 4 \<or> k = 5 \<or> k = 6 \<or> k = 7 \<or> k = 8 \<or> k = 9"
  by arith

lemma digitVal_digitChar: "digitVal (digitChar d) = Some (d mod 10)"
proof -
  have "d mod 10 < 10" by simp
  from small_cases [OF this] show ?thesis
    unfolding digitChar_def digitVal_def by (elim disjE) simp_all
qed

lemma digitChar_not_sign: "digitChar d \<noteq> CHR ''-''" "digitChar d \<noteq> CHR ''+''"
proof -
  have "d mod 10 < 10" by simp
  from small_cases [OF this] show "digitChar d \<noteq> CHR ''-''" "digitChar d \<noteq> CHR ''+''"
    unfolding digitChar_def by (elim disjE; simp)+
qed

lemma parseDigits_append:
  "parseDigits acc (xs @ ys) =
     (case parseDigits acc xs of None \<Rightarrow> None | Some v \<Rightarrow> parseDigits v ys)"
  by (induction xs arbitrary: acc) (auto split: option.splits)

lemma parseDigits_formatNat: "parseDigits 0 (formatNat n) = Some n"
proof (induction n rule: formatNat.induct)
  case (1 n)
  show ?case
  proof (cases "n < 10")
    case True
    then show ?thesis
      by (subst formatNat.simps) (simp add: digitVal_digitChar)
  next
    case False
    with 1 have "parseDigits 0 (formatNat (n div 10)) = Some (n div 10)"
      by simp
    with False show ?thesis
      by (subst formatNat.simps)
         (simp add: parseDigits_append digitVal_digitChar)
  qed
qed

lemma formatNat_nonempty: "formatNat n \<noteq> []"
  by (subst formatNat.simps) simp

lemma hd_formatNat: "\<exists>d. hd (formatNat n) = digitChar d"
proof (induction n rule: formatNat.induct)
  case (1 n)
  show ?case
  proof (cases "n < 10")
    case True
    then show ?thesis
      by (subst formatNat.simps) auto
  next
    case False
    with 1 obtain d where "hd (formatNat (n div 10)) = digitChar d"
      by auto
    with False show ?thesis
      by (subst formatNat.simps) (auto simp: formatNat_nonempty)
  qed
qed

lemma hd_formatNat_not_sign:
  "hd (formatNat n) \<noteq> CHR ''-''" "hd (formatNat n) \<noteq> CHR ''+''"
  using hd_formatNat [of n] digitChar_not_sign by metis+

text \<open>Printing a 64-bit integer and parsing it again gives the integer back.\<close>

lemma Atoi_Itoa: "inInt64 i \<Longrightarrow> Atoi (Itoa i) = Some i"
proof (cases "i < 0")
  case True
  assume "inInt64 i"
  with True show ?thesis
    by (simp add: Atoi_def Itoa_def formatNat_nonempty parseDigits_formatNat
       )
next
  case False
  assume "inInt64 i"
  with False show ?thesis
    by (simp add: Atoi_def Itoa_def formatNat_nonempty parseDigits_formatNat
        hd_formatNat_not_sign)
qed

lemma Atoi_range: "Atoi s = Some n \<Longrightarrow> inInt64 n"
  by (auto simp: Atoi_def Let_def split: if_splits option.splits)


section \<open>Facts about the status resolver\<close>

lemma GetStatusForJob_folder:
  "Contains job ''/'' \<Longrightarrow>
   GetStatusForJob srv w job jobID =
     (Inl errStatusPageNotFound, log_Println (RejectingStatusForJob job) w)"
  by (simp add: GetStatusForJob_def)

lemma cacheLookup_init [simp]:
  "cachedStatuses w = None \<Longrightarrow> cacheLookup (w\<lparr>cachedStatuses := Some Map.empty\<rparr>) key = None"
  by (simp add: cacheLookup_def)

lemma cacheLookup_log [simp]: "cacheLookup (log_Println e w) key = cacheLookup w key"
  by (simp add: cacheLookup_def log_Println_def)

lemma GetStatusForJob_hit:
  "\<not> Contains job ''/'' \<Longrightarrow> jobID \<noteq> lastBuild \<Longrightarrow> jobID \<noteq> lastCompletedBuild \<Longrightarrow>
   cacheLookup w (cacheKey job jobID) = Some v \<Longrightarrow>
   GetStatusForJob srv w job jobID = (Inr v, log_Println (UsingFromCache (cacheKey job jobID)) w)"
  by (auto simp: GetStatusForJob_def Let_def cacheLookup_def split: option.splits)

lemma GetStatusForJob_miss:
  assumes "\<not> Contains job ''/''"
    and "jobID = lastBuild \<or> jobID = lastCompletedBuild \<or> cacheLookup w (cacheKey job jobID) = None"
  shows "GetStatusForJob srv w job jobID =
     (let link = statusLink (ServerLocation w) job jobID;
          w2 = (log_Println (Visiting link) (beforeFetch w jobID))\<lparr>requests := requests w @ [HttpGet link]\<rparr>
      in case srv (length (requests w)) link of
           ConnError e \<Rightarrow> (Inl (HttpError e), w2)
         | Response code body \<Rightarrow>
             if code = 404 then (Inl errStatusPageNotFound, w2)
             else (case body of
                     Decoded result \<Rightarrow>
                       if jobID \<noteq> lastBuild \<and> jobID \<noteq> lastCompletedBuild
                       then (Inr result,
                             w2\<lparr>cachedStatuses :=
                                  map_option (\<lambda>m. m(cacheKey job jobID \<mapsto> result)) (cachedStatuses w2)\<rparr>)
                       else (Inr result, w2)
                   | DecodeFailed msg result \<Rightarrow> (Inr result, w2)))"
  using assms
  by (auto simp: GetStatusForJob_def Let_def beforeFetch_def http_Get_def log_Println_def cacheLookup_def
      split: option.splits http_result.splits decode.splits)

section \<open>Facts about the test filter and the log tail\<close>

lemma forCases_filter: "forCases results cases = results @ filter isFailure cases"
  by (induction cases arbitrary: results) (auto simp: isFailure_def)

lemma forSuites_filter:
  "forSuites results suites = results @ filter isFailure (concat (map Cases suites))"
  by (induction suites arbitrary: results) (auto simp: forCases_filter)

lemma fetchSize_ok:
  assumes "headSrv (length (requests w)) link = Response 200 textSize"
    and "Atoi textSize = Some totalSize"
  shows "fetchSizeForLastLogLines headSrv w link
           = (Inr totalSize, w\<lparr>requests := requests w @ [HttpHead link]\<rparr>)"
proof -
  from assms(2) have "textSize \<noteq> ''''"
    by (auto simp: Atoi_def)
  with assms show ?thesis
    by (simp add: fetchSizeForLastLogLines_def http_Head_def)
qed

lemma fetchLines_requests:
  "requests (snd (fetchLinesForLastLogLines textSrv w link lineCount))
     = requests w @ [HttpGet link]"
  by (simp add: fetchLinesForLastLogLines_def http_Get_def
      split: http_result.splits read_result.splits run.splits)

lemma scan_sample: "scanLines sampleLog 3 7 0 7 [] = Returns [''d'', ''c'', ''b'']"
  by (simp add: scanLines.simps sampleLog_def ReplaceAllString.simps)

lemma swap_sample: "swapLines [''d'', ''c'', ''b''] 0 = [''b'', ''c'', ''d'']"
  by (simp add: swapLines.simps)

section \<open>Facts about the walker\<close>

lemma Atoi_lastCompletedBuild: "Atoi lastCompletedBuild = None"
  by (simp add: Atoi_def lastCompletedBuild_def digitVal_def)

lemma Atoi_not_alias: "Atoi jobID = Some n \<Longrightarrow> jobID \<noteq> lastCompletedBuild"
  using Atoi_lastCompletedBuild by auto

lemma Atoi_next: "Atoi (Itoa (int64 x)) = Some (int64 x)"
  by (simp add: Atoi_Itoa int64_range)

lemma loop_stop_budget:
  "Atoi jobID = Some n \<Longrightarrow> visits - 1 \<le> 0 \<Longrightarrow>
   CausesOfFailures_loop fuel srv name visits jobID w nameSet
     = Returns (log_Println MaximumVisitsReached w, nameSet)"
  by (subst CausesOfFailures_loop.simps) (simp add: Atoi_not_alias)

lemma loop_gap:
  "Atoi jobID = Some n \<Longrightarrow> 0 < visits - 1 \<Longrightarrow>
   GetStatusForJob srv w name jobID = (Inl errStatusPageNotFound, w') \<Longrightarrow>
   CausesOfFailures_loop fuel srv name visits jobID w nameSet
     = CausesOfFailures_loop fuel srv name (visits - 1) (Itoa (int64 (n - 1))) w' nameSet"
  by (subst CausesOfFailures_loop.simps) (simp add: Atoi_not_alias)

lemma loop_closed:
  "Atoi jobID = Some n \<Longrightarrow> 0 < visits - 1 \<Longrightarrow>
   GetStatusForJob srv w name jobID = (Inr (Some st), w') \<Longrightarrow>
   Result st = ''SUCCESS'' \<or> Result st = ''FIXED'' \<Longrightarrow>
   CausesOfFailures_loop fuel srv name visits jobID w nameSet = Returns (w', nameSet)"
  by (subst CausesOfFailures_loop.simps) (simp add: Atoi_not_alias)

lemma loop_failing:
  "Atoi jobID = Some n \<Longrightarrow> 0 < visits - 1 \<Longrightarrow>
   GetStatusForJob srv w name jobID = (Inr (Some st), w') \<Longrightarrow>
   Result st \<noteq> ''SUCCESS'' \<Longrightarrow> Result st \<noteq> ''FIXED'' \<Longrightarrow>
   addActionIdsToSet fuel srv
     (log_Println (GotActionsAndCulprits (Actions st) (Culprits st) name jobID) w')
     nameSet (Some st) = Returns (w'', nameSet') \<Longrightarrow>
   CausesOfFailures_loop fuel srv name visits jobID w nameSet
     = CausesOfFailures_loop fuel srv name (visits - 1) (Itoa (int64 (n - 1))) w''
         (addChangeSetsToSet (addCulpritIdsToSet nameSet' (Culprits st)) (ChangeSets st))"
  by (subst CausesOfFailures_loop.simps) (simp add: Atoi_not_alias)

lemma folder_loop:
  assumes "Contains name ''/''"
  shows "Atoi jobID = Some n \<Longrightarrow>
     CausesOfFailures_loop fuel srv name (int k + 1) jobID w nameSet
       = Returns (w\<lparr>logged := logged w @ replicate k (RejectingStatusForJob name)
                                   @ [MaximumVisitsReached]\<rparr>, nameSet)"
proof (induction k arbitrary: jobID n w)
  case 0
  then show ?case
    by (simp add: loop_stop_budget log_Println_def)
next
  case (Suc k)
  have dec: "int (Suc k) + 1 - 1 = int k + 1"
    by simp
  have "CausesOfFailures_loop fuel srv name (int (Suc k) + 1) jobID w nameSet
      = CausesOfFailures_loop fuel srv name (int (Suc k) + 1 - 1) (Itoa (int64 (n - 1)))
          (log_Println (RejectingStatusForJob name) w) nameSet"
    using Suc.prems by (intro loop_gap) (simp_all add: GetStatusForJob_folder [OF assms])
  also have "\<dots> = CausesOfFailures_loop fuel srv name (int k + 1) (Itoa (int64 (n - 1)))
          (log_Println (RejectingStatusForJob name) w) nameSet"
    by (simp only: dec)
  also have "\<dots> = Returns ((log_Println (RejectingStatusForJob name) w)
          \<lparr>logged := logged (log_Println (RejectingStatusForJob name) w)
               @ replicate k (RejectingStatusForJob name) @ [MaximumVisitsReached]\<rparr>, nameSet)"
    by (rule Suc.IH [OF Atoi_next])
  also have "\<dots> = Returns (w\<lparr>logged := logged w @ replicate (Suc k) (RejectingStatusForJob name)
                                   @ [MaximumVisitsReached]\<rparr>, nameSet)"
    by (simp add: log_Println_def)
  finally show ?case .
qed

lemma Atoi_10: "Atoi ''10'' = Some 10"
  by (simp add: Atoi_def digitVal_def inInt64_def minInt64_def maxInt64_def)

lemma Itoa_9: "Itoa (int64 9) = ''9''"
  by (simp add: int64_def Itoa_def formatNat.simps digitChar_def)

lemma Atoi_9: "Atoi ''9'' = Some 9"
  by (simp add: Atoi_def digitVal_def inInt64_def minInt64_def maxInt64_def)

lemma Itoa_8: "Itoa (int64 8) = ''8''"
  by (simp add: int64_def Itoa_def formatNat.simps digitChar_def)

lemma Atoi_8: "Atoi ''8'' = Some 8"
  by (simp add: Atoi_def digitVal_def inInt64_def minInt64_def maxInt64_def)

lemma numbered: "Atoi jobID = Some n \<Longrightarrow> jobID \<noteq> lastBuild \<and> jobID \<noteq> lastCompletedBuild"
  by (auto simp: Atoi_def lastBuild_def lastCompletedBuild_def digitVal_def)

lemma addActionIdsToSet_no_actions:
  "Actions st = [] \<Longrightarrow> addActionIdsToSet fuel srv w nameSet (Some st) = Returns (w, nameSet)"
  by (simp add: addActionIdsToSet_def walkStatus_def)

lemma statusLink_inject [simp]:
  "(statusLink location job a = statusLink location job b) = (a = b)"
  by (simp add: statusLink_def)

lemma acyclicCache_log [simp]: "acyclicCache rank (log_Println e w) = acyclicCache rank w"
  by (simp add: acyclicCache_def)

lemma ServerLocation_log [simp]: "ServerLocation (log_Println e w) = ServerLocation w"
  by (simp add: log_Println_def)














lemma cyclicState_log [simp]: "cyclicState (log_Println e w) = cyclicState w"
  by (simp add: cyclicState_def)



lemma Itoa_inject:
  assumes "inInt64 a" and "inInt64 b" and "Itoa a = Itoa b"
  shows "a = b"
proof -
  have "Some a = Atoi (Itoa a)"
    using assms(1) by (simp only: Atoi_Itoa)
  also have "\<dots> = Atoi (Itoa b)"
    by (simp only: assms(3))
  also have "\<dots> = Some b"
    using assms(2) by (simp only: Atoi_Itoa)
  finally show ?thesis
    by simp
qed

lemma cacheKey_inject [simp]: "(cacheKey job a = cacheKey job b) = (a = b)"
  by (simp add: cacheKey_def)

lemma get_history:
  assumes nofolder: "\<not> Contains name ''/''"
    and k: "inInt64 k"
    and srv: "\<forall>t. srv t (statusLink (ServerLocation w) name (Itoa k))
                = Response 200 (Decoded (Some st))"
    and cache: "cacheLookup w (cacheKey name (Itoa k)) = None
              \<or> cacheLookup w (cacheKey name (Itoa k)) = Some (Some st)"
  shows "\<exists>w1. GetStatusForJob srv w name (Itoa k) = (Inr (Some st), w1)
       \<and> ServerLocation w1 = ServerLocation w
       \<and> requests w1 = requests w @ resolverRequests w name k
       \<and> logged w1 = logged w @ [resolverEntry w name k]
       \<and> (\<forall>key. key \<noteq> cacheKey name (Itoa k) \<longrightarrow> cacheLookup w1 key = cacheLookup w key)"
proof -
  have nb: "Itoa k \<noteq> lastBuild" "Itoa k \<noteq> lastCompletedBuild"
    using numbered [OF Atoi_Itoa [OF k]] by simp_all
  show ?thesis
  proof (cases "cacheLookup w (cacheKey name (Itoa k))")
    case (Some v)
    with cache have v: "cacheLookup w (cacheKey name (Itoa k)) = Some (Some st)"
      by simp
    have "requests (log_Println e w) = requests w" "logged (log_Println e w) = logged w @ [e]" for e
      by (simp_all add: log_Println_def)
    then show ?thesis
      by (simp add: GetStatusForJob_hit [OF nofolder nb v] resolverRequests_def resolverEntry_def v)
  next
    case None
    define link where "link = statusLink (ServerLocation w) name (Itoa k)"
    define w2 where "w2 = (log_Println (Visiting link) (beforeFetch w (Itoa k)))
        \<lparr>requests := requests w @ [HttpGet link]\<rparr>"
    define w3 where "w3 = w2\<lparr>cachedStatuses :=
        map_option (\<lambda>m. m(cacheKey name (Itoa k) \<mapsto> Some st)) (cachedStatuses w2)\<rparr>"
    have "GetStatusForJob srv w name (Itoa k) = (Inr (Some st), w3)"
      using None nb srv
      by (subst GetStatusForJob_miss [OF nofolder]) (simp_all add: Let_def w3_def w2_def link_def)
    moreover have "ServerLocation w3 = ServerLocation w"
      by (simp add: w3_def w2_def beforeFetch_def log_Println_def)
    moreover have "requests w3 = requests w @ resolverRequests w name k"
      by (simp add: w3_def w2_def resolverRequests_def None link_def)
    moreover have "logged w3 = logged w @ [resolverEntry w name k]"
      by (simp add: w3_def w2_def resolverEntry_def None link_def log_Println_def beforeFetch_def)
    moreover have "key \<noteq> cacheKey name (Itoa k) \<Longrightarrow> cacheLookup w3 key = cacheLookup w key" for key
      by (auto simp: w3_def w2_def cacheLookup_def beforeFetch_def log_Println_def
          split: option.splits)
    ultimately show ?thesis
      by blast
  qed
qed

lemma failing_loop:
  assumes nofolder: "\<not> Contains name ''/''"
    and failing: "\<forall>k. Result (history k) \<noteq> ''SUCCESS'' \<and> Result (history k) \<noteq> ''FIXED''
                    \<and> Actions (history k) = []"
  shows "inInt64 n \<Longrightarrow> inInt64 (n - int j) \<Longrightarrow>
     \<forall>t k. n - int j < k \<and> k \<le> n \<longrightarrow>
        srv t (statusLink (ServerLocation w) name (Itoa k)) = Response 200 (Decoded (Some (history k))) \<Longrightarrow>
     \<forall>k. n - int j < k \<and> k \<le> n \<longrightarrow>
        cacheLookup w (cacheKey name (Itoa k)) = None
        \<or> cacheLookup w (cacheKey name (Itoa k)) = Some (Some (history k)) \<Longrightarrow>
     \<exists>w' names. CausesOfFailures_loop fuel srv name (int j + 1) (Itoa n) w nameSet = Returns (w', names)
       \<and> requests w' = requests w @ concat (map (resolverRequests w name) (rev [n - int j + 1..n]))
       \<and> logged w' = logged w
            @ concat (map (\<lambda>k. [resolverEntry w name k,
                                GotActionsAndCulprits [] (Culprits (history k)) name (Itoa k)])
                       (rev [n - int j + 1..n]))
            @ [MaximumVisitsReached]"
proof (induction j arbitrary: n w nameSet)
  case 0
  then show ?case
    by (simp add: loop_stop_budget [OF Atoi_Itoa] log_Println_def)
next
  case (Suc j)
  note n = \<open>inInt64 n\<close>
  from Suc.prems(1,2) have n1: "inInt64 (n - 1)"
    by (simp add: inInt64_def)
  have srv_n: "\<forall>t. srv t (statusLink (ServerLocation w) name (Itoa n))
      = Response 200 (Decoded (Some (history n)))"
    using Suc.prems(3) by simp
  have cache_n: "cacheLookup w (cacheKey name (Itoa n)) = None
      \<or> cacheLookup w (cacheKey name (Itoa n)) = Some (Some (history n))"
    using Suc.prems(4) by simp
  from get_history [of name n srv w "history n", OF nofolder n srv_n cache_n]
  obtain w1 where get: "GetStatusForJob srv w name (Itoa n) = (Inr (Some (history n)), w1)"
    and loc1: "ServerLocation w1 = ServerLocation w"
    and req1: "requests w1 = requests w @ resolverRequests w name n"
    and log1: "logged w1 = logged w @ [resolverEntry w name n]"
    and look1: "\<And>key. key \<noteq> cacheKey name (Itoa n) \<Longrightarrow> cacheLookup w1 key = cacheLookup w key"
    by blast
  define w2 where "w2 = log_Println (GotActionsAndCulprits (Actions (history n))
      (Culprits (history n)) name (Itoa n)) w1"
  define names2 where "names2 = addChangeSetsToSet
      (addCulpritIdsToSet nameSet (Culprits (history n))) (ChangeSets (history n))"
  have loc2: "ServerLocation w2 = ServerLocation w"
    by (simp add: w2_def loc1)
  have below: "cacheLookup w2 (cacheKey name (Itoa k)) = cacheLookup w (cacheKey name (Itoa k))"
    if "n - 1 - int j < k" "k \<le> n - 1" for k
  proof -
    from that Suc.prems(1,2) have "inInt64 k"
      by (simp add: inInt64_def)
    with that n have "Itoa k \<noteq> Itoa n"
      using Itoa_inject [of k n] by auto
    then show ?thesis
      by (simp add: w2_def look1)
  qed
  have same: "resolverRequests w2 name k = resolverRequests w name k
      \<and> resolverEntry w2 name k = resolverEntry w name k"
    if "k \<in> set [n - 1 - int j + 1..n - 1]" for k
    using that below [of k] by (simp add: resolverRequests_def resolverEntry_def loc2)
  have step: "CausesOfFailures_loop fuel srv name (int (Suc j) + 1) (Itoa n) w nameSet
      = CausesOfFailures_loop fuel srv name (int (Suc j) + 1 - 1) (Itoa (int64 (n - 1))) w2 names2"
    unfolding names2_def
    using failing
    by (intro loop_failing [OF Atoi_Itoa [OF n] _ get])
       (simp_all add: addActionIdsToSet_no_actions w2_def)
  have dec: "int (Suc j) + 1 - 1 = int j + 1" "int64 (n - 1) = n - 1"
    using n1 by (simp_all add: int64_id)
  have "\<exists>w' names. CausesOfFailures_loop fuel srv name (int j + 1) (Itoa (n - 1)) w2 names2
        = Returns (w', names)
       \<and> requests w' = requests w2 @ concat (map (resolverRequests w2 name) (rev [n - 1 - int j + 1..n - 1]))
       \<and> logged w' = logged w2
            @ concat (map (\<lambda>k. [resolverEntry w2 name k,
                                GotActionsAndCulprits [] (Culprits (history k)) name (Itoa k)])
                       (rev [n - 1 - int j + 1..n - 1]))
            @ [MaximumVisitsReached]"
  proof (intro Suc.IH n1)
    show "inInt64 (n - 1 - int j)"
      using Suc.prems(2) by (simp add: algebra_simps)
    show "\<forall>t k. n - 1 - int j < k \<and> k \<le> n - 1 \<longrightarrow>
        srv t (statusLink (ServerLocation w2) name (Itoa k))
          = Response 200 (Decoded (Some (history k)))"
      unfolding loc2
    proof (intro allI impI)
      fix t k assume "n - 1 - int j < k \<and> k \<le> n - 1"
      then have "n - int (Suc j) < k \<and> k \<le> n"
        by simp
      with Suc.prems(3) show "srv t (statusLink (ServerLocation w) name (Itoa k))
          = Response 200 (Decoded (Some (history k)))"
        by blast
    qed
    show "\<forall>k. n - 1 - int j < k \<and> k \<le> n - 1 \<longrightarrow>
        cacheLookup w2 (cacheKey name (Itoa k)) = None
        \<or> cacheLookup w2 (cacheKey name (Itoa k)) = Some (Some (history k))"
    proof (intro allI impI)
      fix k assume k: "n - 1 - int j < k \<and> k \<le> n - 1"
      then have "n - int (Suc j) < k \<and> k \<le> n"
        by simp
      with Suc.prems(4) have "cacheLookup w (cacheKey name (Itoa k)) = None
        \<or> cacheLookup w (cacheKey name (Itoa k)) = Some (Some (history k))"
        by blast
      with k show "cacheLookup w2 (cacheKey name (Itoa k)) = None
        \<or> cacheLookup w2 (cacheKey name (Itoa k)) = Some (Some (history k))"
        by (simp add: below)
    qed
  qed
  then obtain w' names where run: "CausesOfFailures_loop fuel srv name (int j + 1) (Itoa (n - 1)) w2 names2
        = Returns (w', names)"
    and req: "requests w' = requests w2 @ concat (map (resolverRequests w2 name) (rev [n - 1 - int j + 1..n - 1]))"
    and log: "logged w' = logged w2
            @ concat (map (\<lambda>k. [resolverEntry w2 name k,
                                GotActionsAndCulprits [] (Culprits (history k)) name (Itoa k)])
                       (rev [n - 1 - int j + 1..n - 1]))
            @ [MaximumVisitsReached]"
    by blast
  define rest where "rest = rev [n - 1 - int j + 1..n - 1]"
  have range: "rev [n - int (Suc j) + 1..n] = n # rest"
    using upto_rec2 [of "n - int (Suc j) + 1" n] by (simp add: rest_def algebra_simps)
  have req2: "requests w2 = requests w @ resolverRequests w name n"
    by (simp add: w2_def log_Println_def req1)
  have log2: "logged w2 = logged w @ [resolverEntry w name n,
      GotActionsAndCulprits [] (Culprits (history n)) name (Itoa n)]"
    using failing by (simp add: w2_def log_Println_def log1)
  have same_req: "map (resolverRequests w2 name) rest = map (resolverRequests w name) rest"
    unfolding rest_def using same by (intro map_cong) simp_all
  have same_log: "map (\<lambda>k. [resolverEntry w2 name k,
                    GotActionsAndCulprits [] (Culprits (history k)) name (Itoa k)]) rest
      = map (\<lambda>k. [resolverEntry w name k,
                    GotActionsAndCulprits [] (Culprits (history k)) name (Itoa k)]) rest"
    unfolding rest_def using same by (intro map_cong) simp_all
  have "requests w' = requests w @ concat (map (resolverRequests w name) (rev [n - int (Suc j) + 1..n]))"
    unfolding range req [folded rest_def] same_req req2 by simp
  moreover have "logged w' = logged w
            @ concat (map (\<lambda>k. [resolverEntry w name k,
                                GotActionsAndCulprits [] (Culprits (history k)) name (Itoa k)])
                       (rev [n - int (Suc j) + 1..n]))
            @ [MaximumVisitsReached]"
    unfolding range log [folded rest_def] same_log log2 by simp
  moreover have "CausesOfFailures_loop fuel srv name (int (Suc j) + 1) (Itoa n) w nameSet
      = Returns (w', names)"
    using step run by (simp only: dec)
  ultimately show ?case
    by blast
qed

lemma Itoa_small: "Itoa 9 = ''9''" "Itoa 8 = ''8''"
  by (simp_all add: Itoa_def formatNat.simps digitChar_def)

section \<open>The claims\<close>

subsection \<open>C3: job names with a path separator\<close>

text \<open>
  C3 (as amended). For every job name that contains the path separator and every
  identifier, \<^verbatim>\<open>GetStatusForJob\<close> returns the error value \<open>errStatusPageNotFound\<close>,
  the one it also returns for a build that is not found; it issues no request, leaves
  the cache as it is and logs the rejection.
\<close>

theorem C3_folder_job_rejected_as_not_found:
  assumes "Contains job ''/''"
  shows "fst (GetStatusForJob srv w job jobID) = Inl errStatusPageNotFound
       \<and> requests (snd (GetStatusForJob srv w job jobID)) = requests w
       \<and> cachedStatuses (snd (GetStatusForJob srv w job jobID)) = cachedStatuses w
       \<and> logged (snd (GetStatusForJob srv w job jobID)) = logged w @ [RejectingStatusForJob job]"
  using assms by (simp add: GetStatusForJob_folder log_Println_def)

text \<open>The theorem at the job \<^verbatim>\<open>team/project\<close>.\<close>

theorem C3_witness:
  "fst (GetStatusForJob (always (Response 200 (Decoded (Some emptyStatus))))
          (newServerAPI ''http://jenkins'') ''team/project'' ''42'') = Inl errStatusPageNotFound
   \<and> requests (snd (GetStatusForJob (always (Response 200 (Decoded (Some emptyStatus))))
          (newServerAPI ''http://jenkins'') ''team/project'' ''42'')) = []"
  using C3_folder_job_rejected_as_not_found
    [of "''team/project''" "always (Response 200 (Decoded (Some emptyStatus)))"
        "newServerAPI ''http://jenkins''" "''42''"]
  by (simp add: newServerAPI_def)

text \<open>
  The claim as written asks for an error distinct from the not-found one. At the job
  \<^verbatim>\<open>team/project\<close> the call returns the very error that the job \<^verbatim>\<open>project\<close> gets
  from a server answering 404.
\<close>

theorem C3_counterexample:
  "fst (GetStatusForJob (always (Response 404 (Decoded None)))
          (newServerAPI ''http://jenkins'') ''team/project'' ''42'')
   = fst (GetStatusForJob (always (Response 404 (Decoded None)))
          (newServerAPI ''http://jenkins'') ''project'' ''42'')"
  by (simp add: GetStatusForJob_def Let_def always_def http_Get_def newServerAPI_def
      lastBuild_def lastCompletedBuild_def cacheLookup_def)

subsection \<open>C4: numbered builds are cached, aliases are not\<close>

text \<open>
  C4 (as amended). For a job without a path separator: when a numbered build is not yet
  in the cache and the server answers with a payload that decodes (any status but 404),
  the call returns the decoded record, a second call returns the same record whatever the
  server would answer then, and the two calls issue exactly one request in total. For the
  aliases \<^verbatim>\<open>lastBuild\<close> and \<^verbatim>\<open>lastCompletedBuild\<close> every call issues a request and
  leaves the cache as it was.
\<close>

theorem C4_numbered_builds_cached_aliases_not:
  assumes "\<not> Contains job ''/''"
  shows "(jobID \<noteq> lastBuild \<and> jobID \<noteq> lastCompletedBuild
          \<and> cacheLookup w (cacheKey job jobID) = None
          \<and> srv (length (requests w)) (statusLink (ServerLocation w) job jobID)
              = Response code (Decoded r)
          \<and> code \<noteq> 404
          \<longrightarrow> fst (GetStatusForJob srv w job jobID) = Inr r
            \<and> fst (GetStatusForJob srv' (snd (GetStatusForJob srv w job jobID)) job jobID) = Inr r
            \<and> requests (snd (GetStatusForJob srv' (snd (GetStatusForJob srv w job jobID)) job jobID))
                = requests w @ [HttpGet (statusLink (ServerLocation w) job jobID)])
       \<and> (jobID = lastBuild \<or> jobID = lastCompletedBuild
          \<longrightarrow> requests (snd (GetStatusForJob srv w job jobID))
                = requests w @ [HttpGet (statusLink (ServerLocation w) job jobID)]
            \<and> cachedStatuses (snd (GetStatusForJob srv w job jobID)) = cachedStatuses w)"
proof (intro conjI impI)
  assume a: "jobID = lastBuild \<or> jobID = lastCompletedBuild"
  then have m: "jobID = lastBuild \<or> jobID = lastCompletedBuild
      \<or> cacheLookup w (cacheKey job jobID) = None" by blast
  from a have bf: "beforeFetch w jobID = w"
    by (auto simp: beforeFetch_def)
  from a show "requests (snd (GetStatusForJob srv w job jobID))
      = requests w @ [HttpGet (statusLink (ServerLocation w) job jobID)]"
    by (subst GetStatusForJob_miss [OF assms m])
       (auto simp: Let_def bf log_Println_def split: http_result.splits decode.splits)
  from a show "cachedStatuses (snd (GetStatusForJob srv w job jobID)) = cachedStatuses w"
    by (subst GetStatusForJob_miss [OF assms m])
       (auto simp: Let_def bf log_Println_def split: http_result.splits decode.splits)
next
  assume h: "jobID \<noteq> lastBuild \<and> jobID \<noteq> lastCompletedBuild
          \<and> cacheLookup w (cacheKey job jobID) = None
          \<and> srv (length (requests w)) (statusLink (ServerLocation w) job jobID)
              = Response code (Decoded r)
          \<and> code \<noteq> 404"
  then have m: "jobID = lastBuild \<or> jobID = lastCompletedBuild
      \<or> cacheLookup w (cacheKey job jobID) = None" by simp
  define link where "link = statusLink (ServerLocation w) job jobID"
  define w2 where "w2 = (log_Println (Visiting link) (beforeFetch w jobID))
      \<lparr>requests := requests w @ [HttpGet link]\<rparr>"
  define w3 where "w3 = w2\<lparr>cachedStatuses :=
      map_option (\<lambda>m. m(cacheKey job jobID \<mapsto> r)) (cachedStatuses w2)\<rparr>"
  have first: "GetStatusForJob srv w job jobID = (Inr r, w3)"
    using h by (subst GetStatusForJob_miss [OF assms m]) (simp add: Let_def w3_def w2_def link_def)
  have "cachedStatuses w2 \<noteq> None"
    using h by (auto simp: w2_def beforeFetch_def log_Println_def)
  then have look: "cacheLookup w3 (cacheKey job jobID) = Some r"
    by (auto simp: w3_def cacheLookup_def)
  have second: "GetStatusForJob srv' w3 job jobID
      = (Inr r, log_Println (UsingFromCache (cacheKey job jobID)) w3)"
    using h by (intro GetStatusForJob_hit [OF assms _ _ look]) simp_all
  show "fst (GetStatusForJob srv w job jobID) = Inr r"
    by (simp add: first)
  show "fst (GetStatusForJob srv' (snd (GetStatusForJob srv w job jobID)) job jobID) = Inr r"
    by (simp add: first second)
  show "requests (snd (GetStatusForJob srv' (snd (GetStatusForJob srv w job jobID)) job jobID))
      = requests w @ [HttpGet (statusLink (ServerLocation w) job jobID)]"
  proof -
    have "requests w3 = requests w @ [HttpGet link]"
      by (simp add: w3_def w2_def log_Println_def)
    then show ?thesis
      by (simp add: first second log_Println_def link_def)
  qed
qed

text \<open>The theorem at build 42 of a job, and at the alias \<^verbatim>\<open>lastBuild\<close>.\<close>

theorem C4_witness:
  "fst (GetStatusForJob (always (ConnError ''down''))
          (snd (GetStatusForJob (always (Response 200 (Decoded (Some emptyStatus))))
                  (newServerAPI ''http://jenkins'') ''job'' ''42''))
          ''job'' ''42'') = Inr (Some emptyStatus)
   \<and> requests (snd (GetStatusForJob (always (ConnError ''down''))
          (snd (GetStatusForJob (always (Response 200 (Decoded (Some emptyStatus))))
                  (newServerAPI ''http://jenkins'') ''job'' ''42''))
          ''job'' ''42'')) = [HttpGet (statusLink ''http://jenkins'' ''job'' ''42'')]
   \<and> requests (snd (GetStatusForJob (always (Response 200 (Decoded (Some emptyStatus))))
          (newServerAPI ''http://jenkins'') ''job'' lastBuild))
       = [HttpGet (statusLink ''http://jenkins'' ''job'' lastBuild)]
   \<and> cachedStatuses (snd (GetStatusForJob (always (Response 200 (Decoded (Some emptyStatus))))
          (newServerAPI ''http://jenkins'') ''job'' lastBuild)) = None"
proof -
  have nf: "\<not> Contains ''job'' ''/''" by simp
  show ?thesis
    using C4_numbered_builds_cached_aliases_not
      [OF nf, of "''42''" "newServerAPI ''http://jenkins''"
         "always (Response 200 (Decoded (Some emptyStatus)))" 200 "Some emptyStatus"
         "always (ConnError ''down'')"]
      C4_numbered_builds_cached_aliases_not
      [OF nf, of lastBuild "newServerAPI ''http://jenkins''"
         "always (Response 200 (Decoded (Some emptyStatus)))" 200 "Some emptyStatus"
         "always (ConnError ''down'')"]
    by (simp add: always_def newServerAPI_def cacheLookup_def lastBuild_def lastCompletedBuild_def)
qed

text \<open>
  The claim as written counts every call that returns without an error. A call whose
  payload cannot be parsed returns a record and a nil error as well, but is not cached:
  two such calls for build 42 issue two requests.
\<close>

theorem C4_counterexample:
  "fst (GetStatusForJob (always (Response 200 (DecodeFailed ''unexpected EOF'' (Some emptyStatus))))
          (newServerAPI ''http://jenkins'') ''job'' ''42'') = Inr (Some emptyStatus)
   \<and> fst (GetStatusForJob (always (Response 200 (DecodeFailed ''unexpected EOF'' (Some emptyStatus))))
          (snd (GetStatusForJob
                  (always (Response 200 (DecodeFailed ''unexpected EOF'' (Some emptyStatus))))
                  (newServerAPI ''http://jenkins'') ''job'' ''42''))
          ''job'' ''42'') = Inr (Some emptyStatus)
   \<and> requests (snd (GetStatusForJob
          (always (Response 200 (DecodeFailed ''unexpected EOF'' (Some emptyStatus))))
          (snd (GetStatusForJob
                  (always (Response 200 (DecodeFailed ''unexpected EOF'' (Some emptyStatus))))
                  (newServerAPI ''http://jenkins'') ''job'' ''42''))
          ''job'' ''42''))
       = [HttpGet (statusLink ''http://jenkins'' ''job'' ''42''),
          HttpGet (statusLink ''http://jenkins'' ''job'' ''42'')]"
  by (simp add: GetStatusForJob_def Let_def always_def http_Get_def newServerAPI_def
      lastBuild_def lastCompletedBuild_def cacheLookup_def log_Println_def)

subsection \<open>C5: what the resolver reports as an error\<close>

text \<open>
  C5 (as amended). On a request that reaches the server (a job without a path separator,
  no cached record): a failure to connect returns the transport error; status 404
  returns the not-found error; a payload that cannot be parsed is not an error: the call
  returns, with a nil error, the record the decoder left, and stores nothing in the
  cache; and any status other than 404 is treated like a success.
\<close>

theorem C5_only_connection_and_404_are_errors:
  assumes "\<not> Contains job ''/''"
    and "jobID = lastBuild \<or> jobID = lastCompletedBuild
         \<or> cacheLookup w (cacheKey job jobID) = None"
  shows "(srv (length (requests w)) (statusLink (ServerLocation w) job jobID) = ConnError e
            \<longrightarrow> fst (GetStatusForJob srv w job jobID) = Inl (HttpError e))
       \<and> (srv (length (requests w)) (statusLink (ServerLocation w) job jobID) = Response 404 body
            \<longrightarrow> fst (GetStatusForJob srv w job jobID) = Inl errStatusPageNotFound)
       \<and> (srv (length (requests w)) (statusLink (ServerLocation w) job jobID)
              = Response code (DecodeFailed msg r) \<and> code \<noteq> 404
            \<longrightarrow> fst (GetStatusForJob srv w job jobID) = Inr r
              \<and> (\<forall>key. cacheLookup (snd (GetStatusForJob srv w job jobID)) key = cacheLookup w key))
       \<and> (srv (length (requests w)) (statusLink (ServerLocation w) job jobID)
              = Response code (Decoded r) \<and> code \<noteq> 404
            \<longrightarrow> fst (GetStatusForJob srv w job jobID) = Inr r)"
proof -
  have keep: "cacheLookup ((log_Println ev (beforeFetch w jobID))\<lparr>requests := rs\<rparr>) key
      = cacheLookup w key" for ev rs key
    by (simp add: cacheLookup_def log_Println_def beforeFetch_def)
  show ?thesis
    by (subst GetStatusForJob_miss [OF assms])+ (simp add: Let_def keep)
qed

text \<open>The theorem at a refused connection, a 404, an unparseable payload and a status 500.\<close>

theorem C5_witness:
  "fst (GetStatusForJob (always (ConnError ''connection refused''))
          (newServerAPI ''http://jenkins'') ''job'' ''42'') = Inl (HttpError ''connection refused'')
   \<and> fst (GetStatusForJob (always (Response 404 (Decoded None)))
          (newServerAPI ''http://jenkins'') ''job'' ''42'') = Inl errStatusPageNotFound
   \<and> fst (GetStatusForJob (always (Response 200 (DecodeFailed ''unexpected EOF'' (Some emptyStatus))))
          (newServerAPI ''http://jenkins'') ''job'' ''42'') = Inr (Some emptyStatus)
   \<and> fst (GetStatusForJob (always (Response 500 (Decoded (Some emptyStatus))))
          (newServerAPI ''http://jenkins'') ''job'' ''42'') = Inr (Some emptyStatus)"
proof -
  have nf: "\<not> Contains ''job'' ''/''" by simp
  have miss: "''42'' = lastBuild \<or> ''42'' = lastCompletedBuild
      \<or> cacheLookup (newServerAPI ''http://jenkins'') (cacheKey ''job'' ''42'') = None"
    by (simp add: cacheLookup_def newServerAPI_def)
  show ?thesis
    using
      C5_only_connection_and_404_are_errors [OF nf miss,
        of "always (ConnError ''connection refused'')" "''connection refused''"]
      C5_only_connection_and_404_are_errors [OF nf miss,
        of "always (Response 404 (Decoded None))" _ "Decoded None"]
      C5_only_connection_and_404_are_errors [OF nf miss,
        of "always (Response 200 (DecodeFailed ''unexpected EOF'' (Some emptyStatus)))"
           _ _ 200 "''unexpected EOF''" "Some emptyStatus"]
      C5_only_connection_and_404_are_errors [OF nf miss,
        of "always (Response 500 (Decoded (Some emptyStatus)))" _ _ 500 _ "Some emptyStatus"]
    by (simp add: always_def)
qed

text \<open>
  The claim as written: an unparseable payload gives a decode error and a failing status
  a transport error. Against a server whose payload cannot be parsed, and against one
  that answers with status 500, the call for build 42 returns a record and no error.
\<close>

theorem C5_counterexample:
  "fst (GetStatusForJob (always (Response 200 (DecodeFailed ''unexpected EOF'' (Some emptyStatus))))
          (newServerAPI ''http://jenkins'') ''job'' ''42'') = Inr (Some emptyStatus)
   \<and> fst (GetStatusForJob (always (Response 500 (Decoded (Some emptyStatus))))
          (newServerAPI ''http://jenkins'') ''job'' ''42'') = Inr (Some emptyStatus)"
  by (simp add: GetStatusForJob_def Let_def always_def http_Get_def newServerAPI_def
      lastBuild_def lastCompletedBuild_def cacheLookup_def)

subsection \<open>C6: the offset of the log window\<close>

text \<open>
  C6 (as amended). For every total size the probe reports, \<^verbatim>\<open>GetLastLogLines\<close> issues
  the probe and then one content request whose offset is the size minus 2048 (in 64-bit
  arithmetic), without clamping: the offset is max(0, size - 2048) when the size is at
  least 2048, and it is the negative number size - 2048 when the size is smaller.
\<close>

theorem C6_log_fetched_from_size_minus_window:
  assumes "headSrv (length (requests w)) (logSizeLink (ServerLocation w) job jobID)
             = Response 200 textSize"
    and "Atoi textSize = Some totalSize"
  shows "requests (snd (GetLastLogLines headSrv textSrv w job jobID lineCount))
           = requests w @
             [HttpHead (logSizeLink (ServerLocation w) job jobID),
              HttpGet (logSizeLink (ServerLocation w) job jobID @ ''?start='' @
                       Itoa (int64 (totalSize - sizeOfSuffix)))]
       \<and> (sizeOfSuffix \<le> totalSize
            \<longrightarrow> int64 (totalSize - sizeOfSuffix) = max 0 (totalSize - sizeOfSuffix))
       \<and> (0 \<le> totalSize \<and> totalSize < sizeOfSuffix
            \<longrightarrow> int64 (totalSize - sizeOfSuffix) = totalSize - sizeOfSuffix
              \<and> int64 (totalSize - sizeOfSuffix) < 0)"
proof -
  from assms(2) have range: "inInt64 totalSize"
    by (rule Atoi_range)
  have "0 \<le> totalSize \<Longrightarrow> inInt64 (totalSize - sizeOfSuffix)"
    using range by (simp add: inInt64_def sizeOfSuffix_def minInt64_def maxInt64_def)
  then have wrap: "0 \<le> totalSize \<Longrightarrow> int64 (totalSize - sizeOfSuffix) = totalSize - sizeOfSuffix"
    by (simp add: int64_id)
  have reqs: "requests (snd (GetLastLogLines headSrv textSrv w job jobID lineCount))
           = requests w @
             [HttpHead (logSizeLink (ServerLocation w) job jobID),
              HttpGet (logSizeLink (ServerLocation w) job jobID @ ''?start='' @
                       Itoa (int64 (totalSize - sizeOfSuffix)))]"
    by (simp add: GetLastLogLines_def Let_def fetchLines_requests
        fetchSize_ok [of headSrv w "logSizeLink (ServerLocation w) job jobID", OF assms])
  from wrap show ?thesis
    by (simp add: reqs) (simp add: sizeOfSuffix_def)
qed

text \<open>The theorem at a log of 5000 bytes.\<close>

theorem C6_witness:
  "requests (snd (GetLastLogLines (always (Response 200 ''5000'')) (always (Response 200 (ReadAll sampleLog)))
       (newServerAPI ''http://jenkins'') ''job'' ''42'' 3))
     = [HttpHead ''http://jenkins/job/job/42/logText/progressiveHtml'',
        HttpGet ''http://jenkins/job/job/42/logText/progressiveHtml?start=2952'']"
proof -
  have a: "Atoi ''5000'' = Some 5000"
    by (simp add: Atoi_def digitVal_def inInt64_def minInt64_def maxInt64_def)
  have i: "Itoa 2952 = ''2952''"
    by (simp add: Itoa_def formatNat.simps digitChar_def)
  show ?thesis
    using C6_log_fetched_from_size_minus_window
      [of "always (Response 200 ''5000'')" "newServerAPI ''http://jenkins''" "''job''" "''42''"
          "''5000''" 5000 "always (Response 200 (ReadAll sampleLog))" 3]
    by (simp add: always_def a i newServerAPI_def logSizeLink_def sizeOfSuffix_def)
qed

text \<open>
  The claim as written has offset 0 for a log shorter than the window. For a log of 100
  bytes the content request asks for offset -1948.
\<close>

theorem C6_counterexample:
  "requests (snd (GetLastLogLines (always (Response 200 ''100'')) (always (Response 200 (ReadAll sampleLog)))
       (newServerAPI ''http://jenkins'') ''job'' ''42'' 3))
     = [HttpHead ''http://jenkins/job/job/42/logText/progressiveHtml'',
        HttpGet ''http://jenkins/job/job/42/logText/progressiveHtml?start=-1948'']"
proof -
  have a: "Atoi ''100'' = Some 100"
    by (simp add: Atoi_def digitVal_def inInt64_def minInt64_def maxInt64_def)
  have i: "Itoa (- 1948) = ''-1948''"
    by (simp add: Itoa_def formatNat.simps digitChar_def)
  have w: "int64 (- 1948) = - 1948"
    by (simp add: int64_def)
  show ?thesis
    by (simp add: GetLastLogLines_def Let_def fetchSizeForLastLogLines_def http_Head_def
        always_def a i w newServerAPI_def logSizeLink_def sizeOfSuffix_def fetchLines_requests)
qed

subsection \<open>C7: the last three lines of a four-line log\<close>

text \<open>
  C7. When the probe succeeds and the content request returns the bytes
  \<^verbatim>\<open>a\n b\n c\n d\n\<close> (without the spaces), \<^verbatim>\<open>GetLastLogLines\<close> with line count 3
  returns the lines b, c, d in that order; the backward scan has collected them newest
  first, as d, c, b.
\<close>

theorem C7_tail_of_sample_log:
  assumes "headSrv (length (requests w)) (logSizeLink (ServerLocation w) job jobID)
             = Response 200 textSize"
    and "Atoi textSize = Some totalSize"
    and "textSrv (Suc (length (requests w)))
           (logSizeLink (ServerLocation w) job jobID @ ''?start='' @
            Itoa (int64 (totalSize - sizeOfSuffix)))
           = Response 200 (ReadAll sampleLog)"
  shows "fst (GetLastLogLines headSrv textSrv w job jobID 3) = Returns (Inr [''b'', ''c'', ''d''])
       \<and> scanLines sampleLog 3 (int (length sampleLog) - 1) 0 (int (length sampleLog) - 1) []
           = Returns [''d'', ''c'', ''b'']"
proof -
  have len: "int (length sampleLog) - 1 = 7"
    by (simp add: sampleLog_def)
  show ?thesis
    using assms(3)
    by (simp add: GetLastLogLines_def Let_def
        fetchSize_ok [of headSrv w "logSizeLink (ServerLocation w) job jobID", OF assms(1,2)]
        fetchLinesForLastLogLines_def http_Get_def len scan_sample swap_sample)
qed

text \<open>The theorem at a probe reporting 8 bytes.\<close>

theorem C7_witness:
  "fst (GetLastLogLines (always (Response 200 ''8'')) (always (Response 200 (ReadAll sampleLog)))
       (newServerAPI ''http://jenkins'') ''job'' ''42'' 3) = Returns (Inr [''b'', ''c'', ''d''])"
proof -
  have a: "Atoi ''8'' = Some 8"
    by (simp add: Atoi_def digitVal_def inInt64_def minInt64_def maxInt64_def)
  show ?thesis
    using C7_tail_of_sample_log
      [of "always (Response 200 ''8'')" "newServerAPI ''http://jenkins''" "''job''" "''42''"
          "''8''" 8 "always (Response 200 (ReadAll sampleLog))"]
    by (simp add: always_def a)
qed

subsection \<open>C9: the failed test cases\<close>

text \<open>
  C9. For every test report the server returns (with any status but 404),
  \<^verbatim>\<open>GetFailedTestListFor\<close> returns exactly the test cases whose status is not PASSED,
  not SKIPPED and not FIXED, in the order in which they appear in the report.
\<close>

theorem C9_failed_tests_are_the_filtered_cases:
  assumes "srv (length (requests w)) (testReportLink (ServerLocation w) job jobID)
             = Response code (Decoded received)"
    and "code \<noteq> 404"
  shows "fst (GetFailedTestListFor srv w job jobID)
           = Inr (filter isFailure (concat (map Cases (Suites received))))"
  using assms
  by (simp add: GetFailedTestListFor_def Let_def http_Get_def log_Println_def forSuites_filter)

text \<open>The theorem at a report of two suites with five cases.\<close>

theorem C9_witness:
  "fst (GetFailedTestListFor (always (Response 200 (Decoded sampleReport)))
          (newServerAPI ''http://jenkins'') ''job'' ''42'')
     = Inr [testCase ''t2'' ''FAILED'', testCase ''t4'' ''REGRESSION'']"
  using C9_failed_tests_are_the_filtered_cases
    [of "always (Response 200 (Decoded sampleReport))" "newServerAPI ''http://jenkins''"
        "''job''" "''42''" 200 sampleReport]
  by (simp add: always_def sampleReport_def isFailure_def testCase_def)

subsection \<open>C1: the recursion through upstream builds\<close>




subsection \<open>C2: how many builds a long failing streak costs\<close>

text \<open>
  C2 (what the code does). For a history in which the 25 builds up to \<open>n\<close> all failed
  (each record with result FAILURE and no actions) and a cache that holds nothing but
  such records, \<^verbatim>\<open>CausesOfFailures\<close> from build \<open>n\<close> calls the resolver for the 19
  builds \<open>n\<close> down to \<open>n - 18\<close>, whatever the cache holds, and then logs that the
  maximum number of visits is reached: the counter that starts at 20 is lowered before it
  is tested, so the twentieth iteration stops before its fetch. Only the builds that are
  not cached cost a request.
\<close>

theorem C2_walk_resolves_nineteen_builds:
  assumes "\<not> Contains name ''/''"
    and "inInt64 n" and "inInt64 (n - 24)"
    and "\<forall>t k. n - 24 \<le> k \<and> k \<le> n \<longrightarrow>
           srv t (statusLink (ServerLocation w) name (Itoa k))
             = Response 200 (Decoded (Some (history k)))"
    and "\<forall>k. Result (history k) = ''FAILURE'' \<and> Actions (history k) = []"
    and "\<forall>k. n - 24 \<le> k \<and> k \<le> n \<longrightarrow>
           cacheLookup w (cacheKey name (Itoa k)) = None
           \<or> cacheLookup w (cacheKey name (Itoa k)) = Some (Some (history k))"
  shows "\<exists>w' names. CausesOfFailures fuel srv w name (Itoa n) = Returns (w', names)
       \<and> requests w' = requests w @ concat (map (resolverRequests w name) (rev [n - 18..n]))
       \<and> logged w' = logged w
            @ concat (map (\<lambda>k. [resolverEntry w name k,
                                GotActionsAndCulprits [] (Culprits (history k)) name (Itoa k)])
                       (rev [n - 18..n]))
            @ [MaximumVisitsReached]
       \<and> length (rev [n - 18..n]) = 19"
proof -
  have failing: "\<forall>k. Result (history k) \<noteq> ''SUCCESS'' \<and> Result (history k) \<noteq> ''FIXED''
      \<and> Actions (history k) = []"
    using assms(5) by simp
  have low: "inInt64 (n - int 19)"
    using assms(2,3) by (simp add: inInt64_def)
  have srv: "\<forall>t k. n - int 19 < k \<and> k \<le> n \<longrightarrow>
      srv t (statusLink (ServerLocation w) name (Itoa k)) = Response 200 (Decoded (Some (history k)))"
    using assms(4) by simp
  have cache: "\<forall>k. n - int 19 < k \<and> k \<le> n \<longrightarrow>
      cacheLookup w (cacheKey name (Itoa k)) = None
      \<or> cacheLookup w (cacheKey name (Itoa k)) = Some (Some (history k))"
    using assms(6) by simp
  have "\<exists>w' names. CausesOfFailures_loop fuel srv name (int 19 + 1) (Itoa n) w {} = Returns (w', names)
       \<and> requests w' = requests w @ concat (map (resolverRequests w name) (rev [n - int 19 + 1..n]))
       \<and> logged w' = logged w
            @ concat (map (\<lambda>k. [resolverEntry w name k,
                                GotActionsAndCulprits [] (Culprits (history k)) name (Itoa k)])
                       (rev [n - int 19 + 1..n]))
            @ [MaximumVisitsReached]"
    by (rule failing_loop [OF assms(1) failing assms(2) low srv cache])
  moreover have "n - int 19 + 1 = n - 18" "int 19 + 1 = 20"
    by simp_all
  ultimately show ?thesis
    by (simp add: CausesOfFailures_def)
qed

text \<open>
  The theorem at a job whose every build failed through the same culprit, from build 25
  with an empty cache: nineteen requests, for the builds 25 down to 7.
\<close>

theorem C2_witness:
  "\<exists>w' names. CausesOfFailures 0 (always (Response 200 (Decoded (Some (failedBy ''dev'')))))
       (newServerAPI ''http://jenkins'') ''job'' (Itoa 25) = Returns (w', names)
     \<and> requests w' = map (\<lambda>k. HttpGet (statusLink ''http://jenkins'' ''job'' (Itoa k))) (rev [7..25])
     \<and> length (requests w') = 19
     \<and> last (logged w') = MaximumVisitsReached"
proof -
  have nf: "\<not> Contains ''job'' ''/''" by simp
  have r: "inInt64 25" "inInt64 (25 - 24)"
    by (simp_all add: inInt64_def minInt64_def maxInt64_def)
  have h4: "\<forall>t k. 25 - 24 \<le> k \<and> k \<le> 25 \<longrightarrow>
      always (Response 200 (Decoded (Some (failedBy ''dev'')))) t
        (statusLink (ServerLocation (newServerAPI ''http://jenkins'')) ''job'' (Itoa k))
      = Response 200 (Decoded (Some ((\<lambda>k. failedBy ''dev'') k)))"
    by (simp add: always_def)
  have h5: "\<forall>k. Result ((\<lambda>k. failedBy ''dev'') k) = ''FAILURE''
      \<and> Actions ((\<lambda>k. failedBy ''dev'') k) = []"
    by (simp add: failedBy_def emptyStatus_def)
  have h6: "\<forall>k. 25 - 24 \<le> k \<and> k \<le> 25 \<longrightarrow>
      cacheLookup (newServerAPI ''http://jenkins'') (cacheKey ''job'' (Itoa k)) = None
      \<or> cacheLookup (newServerAPI ''http://jenkins'') (cacheKey ''job'' (Itoa k))
          = Some (Some ((\<lambda>k. failedBy ''dev'') k))"
    by (simp add: cacheLookup_def newServerAPI_def)
  have req: "resolverRequests (newServerAPI ''http://jenkins'') ''job''
      = (\<lambda>k. [HttpGet (statusLink ''http://jenkins'' ''job'' (Itoa k))])"
    by (rule ext) (simp add: resolverRequests_def cacheLookup_def newServerAPI_def)
  have flat: "concat (map (\<lambda>k. [f k]) xs) = map f xs" for f :: "int \<Rightarrow> http_request" and xs
    by (induction xs) simp_all
  have none: "requests (newServerAPI ''http://jenkins'') = []"
    by (simp add: newServerAPI_def)
  have seven: "(25::int) - 18 = 7"
    by simp
  from C2_walk_resolves_nineteen_builds [OF nf r h4 h5 h6, of 0]
  obtain w' names where run:
    "CausesOfFailures 0 (always (Response 200 (Decoded (Some (failedBy ''dev'')))))
       (newServerAPI ''http://jenkins'') ''job'' (Itoa 25) = Returns (w', names)"
    and reqs: "requests w' = requests (newServerAPI ''http://jenkins'')
       @ concat (map (resolverRequests (newServerAPI ''http://jenkins'') ''job'') (rev [25 - 18..25]))"
    and logs: "logged w' = logged (newServerAPI ''http://jenkins'')
       @ concat (map (\<lambda>k. [resolverEntry (newServerAPI ''http://jenkins'') ''job'' k,
                           GotActionsAndCulprits [] (Culprits (failedBy ''dev'')) ''job'' (Itoa k)])
                  (rev [25 - 18..25]))
       @ [MaximumVisitsReached]"
    and len: "length (rev [25 - 18..25]) = 19"
    by blast
  have a: "requests w'
      = map (\<lambda>k. HttpGet (statusLink ''http://jenkins'' ''job'' (Itoa k))) (rev [7..25])"
    unfolding reqs req flat none seven by (simp only: append_Nil)
  have b: "length (requests w') = 19"
    unfolding reqs req flat none using len by (simp only: append_Nil length_map)
  have c: "last (logged w') = MaximumVisitsReached"
    unfolding logs by (simp only: append_assoc [symmetric] last_snoc)
  from run a b c show ?thesis
    by blast
qed

subsection \<open>C8: a build that is not found is skipped\<close>

text \<open>
  C8. When the resolver answers the not-found error for the current build (and the
  counter allows another iteration), the loop goes on with the identifier lowered by one
  and the set of names unchanged. Hence, for a job without a path separator, when build
  10 is not found, build 9 is a FAILURE with the one culprit \<open>culprit\<close> (and no actions or
  change sets) and build 8 is a SUCCESS, and the cache holds nothing that differs from
  this history, \<^verbatim>\<open>CausesOfFailures\<close> from build 10 returns exactly the set that holds
  \<open>culprit\<close>.
\<close>

theorem C8_missing_build_is_skipped:
  "(Atoi jobID = Some currentID \<and> 0 < visits - 1
          \<and> GetStatusForJob srv w name jobID = (Inl errStatusPageNotFound, w')
          \<longrightarrow> CausesOfFailures_loop fuel srv name visits jobID w nameSet
              = CausesOfFailures_loop fuel srv name (visits - 1) (Itoa (int64 (currentID - 1)))
                  w' nameSet)
       \<and> (\<not> Contains name ''/''
          \<and> cacheLookup w (cacheKey name ''10'') = None
          \<and> (cacheLookup w (cacheKey name ''9'') = None
             \<or> cacheLookup w (cacheKey name ''9'') = Some (Some failed))
          \<and> (cacheLookup w (cacheKey name ''8'') = None
             \<or> cacheLookup w (cacheKey name ''8'') = Some (Some passed))
          \<and> (\<forall>t. srv t (statusLink (ServerLocation w) name ''10'') = Response 404 body)
          \<and> (\<forall>t. srv t (statusLink (ServerLocation w) name ''9'')
                  = Response 200 (Decoded (Some failed)))
          \<and> Result failed = ''FAILURE'' \<and> Culprits failed = [\<lparr>FullName = culprit\<rparr>]
          \<and> Actions failed = [] \<and> ChangeSets failed = []
          \<and> (\<forall>t. srv t (statusLink (ServerLocation w) name ''8'')
                  = Response 200 (Decoded (Some passed)))
          \<and> Result passed = ''SUCCESS''
          \<longrightarrow> (\<exists>w''. CausesOfFailures fuel srv w name ''10'' = Returns (w'', {culprit})))"
proof (intro conjI impI)
  assume "Atoi jobID = Some currentID \<and> 0 < visits - 1
          \<and> GetStatusForJob srv w name jobID = (Inl errStatusPageNotFound, w')"
  then show "CausesOfFailures_loop fuel srv name visits jobID w nameSet
      = CausesOfFailures_loop fuel srv name (visits - 1) (Itoa (int64 (currentID - 1))) w' nameSet"
    by (simp add: loop_gap)
next
  assume h: "\<not> Contains name ''/''
          \<and> cacheLookup w (cacheKey name ''10'') = None
          \<and> (cacheLookup w (cacheKey name ''9'') = None
             \<or> cacheLookup w (cacheKey name ''9'') = Some (Some failed))
          \<and> (cacheLookup w (cacheKey name ''8'') = None
             \<or> cacheLookup w (cacheKey name ''8'') = Some (Some passed))
          \<and> (\<forall>t. srv t (statusLink (ServerLocation w) name ''10'') = Response 404 body)
          \<and> (\<forall>t. srv t (statusLink (ServerLocation w) name ''9'')
                  = Response 200 (Decoded (Some failed)))
          \<and> Result failed = ''FAILURE'' \<and> Culprits failed = [\<lparr>FullName = culprit\<rparr>]
          \<and> Actions failed = [] \<and> ChangeSets failed = []
          \<and> (\<forall>t. srv t (statusLink (ServerLocation w) name ''8'')
                  = Response 200 (Decoded (Some passed)))
          \<and> Result passed = ''SUCCESS''"
  then have nofolder: "\<not> Contains name ''/''"
    by simp
  have small: "inInt64 9" "inInt64 8"
    by (simp_all add: inInt64_def minInt64_def maxInt64_def)
  define loc where "loc = ServerLocation w"
  \<comment> \<open>build 10: not found\<close>
  define w10 where "w10 = (log_Println (Visiting (statusLink loc name ''10'')) (beforeFetch w ''10''))
      \<lparr>requests := requests w @ [HttpGet (statusLink loc name ''10'')]\<rparr>"
  have g10: "GetStatusForJob srv w name ''10'' = (Inl errStatusPageNotFound, w10)"
    using h by (subst GetStatusForJob_miss [OF nofolder]) (simp_all add: Let_def w10_def loc_def)
  have loc10: "ServerLocation w10 = loc"
    by (simp add: w10_def log_Println_def beforeFetch_def loc_def)
  have look10: "cacheLookup w10 key = cacheLookup w key" for key
    by (simp add: w10_def cacheLookup_def log_Println_def beforeFetch_def)
  \<comment> \<open>build 9: a failure\<close>
  have srv9: "\<forall>t. srv t (statusLink (ServerLocation w10) name (Itoa 9))
      = Response 200 (Decoded (Some failed))"
    using h by (simp add: loc10 loc_def Itoa_small)
  have cache9: "cacheLookup w10 (cacheKey name (Itoa 9)) = None
      \<or> cacheLookup w10 (cacheKey name (Itoa 9)) = Some (Some failed)"
    using h by (simp add: look10 Itoa_small)
  from get_history [of name 9 srv w10 failed, OF nofolder small(1) srv9 cache9]
  obtain w9 where g9: "GetStatusForJob srv w10 name ''9'' = (Inr (Some failed), w9)"
    and loc9: "ServerLocation w9 = loc"
    and look9: "\<And>key. key \<noteq> cacheKey name ''9'' \<Longrightarrow> cacheLookup w9 key = cacheLookup w10 key"
    by (auto simp: Itoa_small loc10)
  define x9 where "x9 = log_Println (GotActionsAndCulprits (Actions failed) (Culprits failed) name ''9'') w9"
  \<comment> \<open>build 8: a success\<close>
  have srv8: "\<forall>t. srv t (statusLink (ServerLocation x9) name (Itoa 8))
      = Response 200 (Decoded (Some passed))"
    using h by (simp add: x9_def loc9 loc_def Itoa_small)
  have cache8: "cacheLookup x9 (cacheKey name (Itoa 8)) = None
      \<or> cacheLookup x9 (cacheKey name (Itoa 8)) = Some (Some passed)"
    using h by (simp add: x9_def look9 look10 Itoa_small)
  from get_history [of name 8 srv x9 passed, OF nofolder small(2) srv8 cache8]
  obtain w8 where g8: "GetStatusForJob srv x9 name ''8'' = (Inr (Some passed), w8)"
    by (auto simp: Itoa_small)
  have "CausesOfFailures fuel srv w name ''10''
      = CausesOfFailures_loop fuel srv name (20 - 1) (Itoa (int64 (10 - 1))) w10 {}"
    unfolding CausesOfFailures_def
    by (rule loop_gap [OF Atoi_10 _ g10]) simp
  also have "\<dots> = CausesOfFailures_loop fuel srv name (20 - 1) ''9'' w10 {}"
    by (simp add: Itoa_9)
  also have "\<dots> = CausesOfFailures_loop fuel srv name (20 - 1 - 1) (Itoa (int64 (9 - 1))) x9
      (addChangeSetsToSet (addCulpritIdsToSet {} (Culprits failed)) (ChangeSets failed))"
    using h by (intro loop_failing [OF Atoi_9 _ g9])
      (simp_all add: addActionIdsToSet_no_actions x9_def)
  also have "\<dots> = CausesOfFailures_loop fuel srv name (20 - 1 - 1) ''8'' x9 {culprit}"
    using h by (simp add: Itoa_8)
  also have "\<dots> = Returns (w8, {culprit})"
    using h by (intro loop_closed [OF Atoi_8 _ g8]) simp_all
  finally show "\<exists>w''. CausesOfFailures fuel srv w name ''10'' = Returns (w'', {culprit})"
    by blast
qed

text \<open>
  The theorem at such a history with the culprit carol.
\<close>

theorem C8_witness:
  "CausesOfFailures_loop 0 gapHistory ''job'' 20 ''10'' (newServerAPI ''http://jenkins'') {}
     = CausesOfFailures_loop 0 gapHistory ''job'' (20 - 1) (Itoa (int64 (10 - 1)))
         (snd (GetStatusForJob gapHistory (newServerAPI ''http://jenkins'') ''job'' ''10'')) {}
   \<and> (\<exists>w''. CausesOfFailures 0 gapHistory (newServerAPI ''http://jenkins'') ''job'' ''10''
      = Returns (w'', {''carol''}))"
proof -
  have g: "GetStatusForJob gapHistory (newServerAPI ''http://jenkins'') ''job'' ''10''
      = (Inl errStatusPageNotFound,
         snd (GetStatusForJob gapHistory (newServerAPI ''http://jenkins'') ''job'' ''10''))"
    by (simp add: GetStatusForJob_def Let_def gapHistory_def http_Get_def newServerAPI_def
      lastBuild_def lastCompletedBuild_def cacheLookup_def log_Println_def)
  show ?thesis
    using C8_missing_build_is_skipped [
        of "''10''" 10 20 gapHistory "newServerAPI ''http://jenkins''" "''job''"
           "snd (GetStatusForJob gapHistory (newServerAPI ''http://jenkins'') ''job'' ''10'')"
           0 "{}" "failedBy ''carol''" succeeded "Decoded None" "''carol''"] g Atoi_10
    by (simp add: gapHistory_def cacheLookup_def newServerAPI_def failedBy_def succeeded_def
        emptyStatus_def)
qed

subsection \<open>C10: the walk over a job with a path separator\<close>

text \<open>
  C10. For every job name that contains the path separator and every start identifier
  that parses as a number, \<^verbatim>\<open>CausesOfFailures\<close> issues no request and changes nothing
  but the log, returns the empty set, and does so only after the whole counter is spent:
  the resolver rejects the job nineteen times, each time with the error value of a build
  that is not found, so each iteration lowers the identifier and the counter, until the
  twentieth finds the counter at zero.
\<close>

theorem C10_folder_job_walk_spends_the_budget:
  assumes "Contains name ''/''" and "Atoi jobID = Some startID"
  shows "CausesOfFailures fuel srv w name jobID
           = Returns (w\<lparr>logged := logged w @ replicate 19 (RejectingStatusForJob name)
                                       @ [MaximumVisitsReached]\<rparr>, {})
       \<and> fst (GetStatusForJob srv w name jobID) = Inl errStatusPageNotFound"
proof -
  have "CausesOfFailures_loop fuel srv name (int 19 + 1) jobID w {}
      = Returns (w\<lparr>logged := logged w @ replicate 19 (RejectingStatusForJob name)
                                  @ [MaximumVisitsReached]\<rparr>, {})"
    using assms by (rule folder_loop)
  then show ?thesis
    by (simp add: CausesOfFailures_def GetStatusForJob_folder [OF assms(1)])
qed

text \<open>
  The theorem at the job \<^verbatim>\<open>team/project\<close> from build 42.
\<close>

theorem C10_witness:
  "CausesOfFailures 0 (always (Response 200 (Decoded (Some emptyStatus))))
     (newServerAPI ''http://jenkins'') ''team/project'' ''42''
   = Returns ((newServerAPI ''http://jenkins'')
        \<lparr>logged := replicate 19 (RejectingStatusForJob ''team/project'') @ [MaximumVisitsReached]\<rparr>, {})"
proof -
  have a: "Atoi ''42'' = Some 42"
    by (simp add: Atoi_def digitVal_def inInt64_def minInt64_def maxInt64_def)
  have c: "Contains ''team/project'' ''/''"
    by simp
  show ?thesis
    using C10_folder_job_walk_spends_the_budget [OF c a, of 0
        "always (Response 200 (Decoded (Some emptyStatus)))" "newServerAPI ''http://jenkins''"]
    by (simp add: newServerAPI_def)
qed

end
